theory Spec2Isabelle
  imports Complex_Main "HOL-Library.Sublist"
begin

section \<open>Python values and exceptions\<close>

text \<open>
  The two servers exchange JSON with their callers and with the upstream services.
  A Python \<^verbatim>\<open>dict\<close> keeps insertion order, so an object is an association list;
  \<^verbatim>\<open>d.get(k)\<close> and \<^verbatim>\<open>d[k]\<close> read it with \<open>map_of\<close>.  The type parameter
  \<open>'f\<close> is the type of Python floats.
\<close>

datatype 'f json =
    JNull
  | JBool bool
  | JInt int
  | JFloat 'f
  | JStr string
  | JArr "'f json list"
  | JObj "(string \<times> 'f json) list"

text \<open>
  Exceptions derived from \<^verbatim>\<open>Exception\<close>: the class and the text \<^verbatim>\<open>str(e)\<close>.
  \<open>HTTPError\<close> stands for what \<^verbatim>\<open>httpx\<close> raises (transport failures and
  \<^verbatim>\<open>raise_for_status\<close>).
\<close>

datatype exn_class =
    ValueError | KeyError | IndexError | TypeError | AttributeError
  | ZeroDivisionError | OverflowError | HTTPError

datatype py_exn = Raise exn_class string

fun exn_str :: "py_exn \<Rightarrow> string" where
  "exn_str (Raise c msg) = msg"

fun exn_cls :: "py_exn \<Rightarrow> exn_class" where
  "exn_cls (Raise c msg) = c"

text \<open>\<^verbatim>\<open>d.get(k)\<close>: \<^verbatim>\<open>None\<close> for a missing key.\<close>

definition dict_get :: "(string \<times> 'f json) list \<Rightarrow> string \<Rightarrow> 'f json" where
  "dict_get d k = (case map_of d k of None \<Rightarrow> JNull | Some v \<Rightarrow> v)"

text \<open>\<^verbatim>\<open>d.get(k, default)\<close>.\<close>

definition dict_get_default :: "(string \<times> 'f json) list \<Rightarrow> string \<Rightarrow> 'f json \<Rightarrow> 'f json" where
  "dict_get_default d k dflt = (case map_of d k of None \<Rightarrow> dflt | Some v \<Rightarrow> v)"

section \<open>Strings\<close>

text \<open>
  \<^verbatim>\<open>s.replace(old, new)\<close> scans from the left and replaces every non-overlapping
  occurrence of \<open>old\<close>.  For an empty \<open>old\<close> Python puts \<open>new\<close> before every
  character and at the end.
\<close>

function replace_scan :: "string \<Rightarrow> string \<Rightarrow> string \<Rightarrow> string" where
  "replace_scan old new [] = []"
| "replace_scan old new (c # cs) =
     (if old \<noteq> [] \<and> prefix old (c # cs)
      then new @ replace_scan old new (drop (length old) (c # cs))
      else c # replace_scan old new cs)"
  by pat_completeness auto
termination
  by (relation "measure (\<lambda>(old, new, s). length s)") auto

definition str_replace :: "string \<Rightarrow> string \<Rightarrow> string \<Rightarrow> string" where
  "str_replace s old new =
     (if old = [] then new @ concat (map (\<lambda>c. c # new) s)
      else replace_scan old new s)"

text \<open>\<^verbatim>\<open>sub in s\<close> for strings: \<open>sub\<close> occurs as a contiguous piece of \<open>s\<close>.\<close>

fun str_contains :: "string \<Rightarrow> string \<Rightarrow> bool" where
  "str_contains sub [] = (sub = [])"
| "str_contains sub (c # cs) = (prefix sub (c # cs) \<or> str_contains sub cs)"

text \<open>\<^verbatim>\<open>str(n)\<close> for an integer: decimal digits, with a minus sign when negative.\<close>

definition digit_char :: "nat \<Rightarrow> char" where
  "digit_char d = ''0123456789'' ! d"

fun nat_dec :: "nat \<Rightarrow> string" where
  "nat_dec n = (if n < 10 then [digit_char n] else nat_dec (n div 10) @ [digit_char (n mod 10)])"

declare nat_dec.simps [simp del]

definition int_str :: "int \<Rightarrow> string" where
  "int_str i = (if i < 0 then CHR ''-'' # nat_dec (nat (- i)) else nat_dec (nat i))"

section \<open>The tile catalog server\<close>

text \<open>
  The arguments \<open>z\<close>, \<open>x\<close>, \<open>y\<close> of the URL builders are untyped in the source:
  the tools pass tile indices (integers), and \<^verbatim>\<open>getMapLibreStyle\<close> passes the
  placeholder strings themselves.  \<open>coord_str\<close> is \<^verbatim>\<open>str(v)\<close> on these.
\<close>

datatype coord = CInt int | CStr string

fun coord_str :: "coord \<Rightarrow> string" where
  "coord_str (CInt i) = int_str i"
| "coord_str (CStr s) = s"

fun coord_json :: "coord \<Rightarrow> 'f json" where
  "coord_json (CInt i) = JInt i"
| "coord_json (CStr s) = JStr s"

text \<open>
  The coordinates that reach the URL builder: a tile index, or one of the three
  placeholders, left in place for a map client to fill in later
  (\<^verbatim>\<open>getMapLibreStyle\<close> passes \<^verbatim>\<open>z="{z}", x="{x}", y="{y}"\<close>).
\<close>

fun tile_coordinate :: "coord \<Rightarrow> bool" where
  "tile_coordinate (CInt i) = True"
| "tile_coordinate (CStr s) = (s = ''{z}'' \<or> s = ''{x}'' \<or> s = ''{y}'')"

record provider_info =
  urlTemplate :: string
  subdomains :: "string list"
  attribution :: string
  description :: string

text \<open>
  The attribution of the source begins with the copyright sign (U+00A9), written here
  as the two bytes of its UTF-8 encoding.
\<close>

definition osm_mapnik :: provider_info where
  "osm_mapnik = \<lparr>
     urlTemplate = ''https://{s}.tile.openstreetmap.org/{z}/{x}/{y}.png'',
     subdomains = [''a'', ''b'', ''c''],
     attribution = [char_of (194::nat), char_of (169::nat)] @ '' OpenStreetMap contributors'',
     description = ''Standard OSM raster tiles (Mapnik style).'' \<rparr>"

definition TILE_PROVIDERS :: "(string \<times> provider_info) list" where
  "TILE_PROVIDERS = [(''OpenStreetMap.Mapnik'', osm_mapnik)]"

definition get_provider_info :: "string \<Rightarrow> py_exn + provider_info" where
  "get_provider_info provider =
     (case map_of TILE_PROVIDERS provider of
        None \<Rightarrow> Inl (Raise ValueError (''Unknown tile provider: '' @ provider))
      | Some info \<Rightarrow> Inr info)"

definition build_tile_url_from_template ::
  "string \<Rightarrow> coord \<Rightarrow> coord \<Rightarrow> coord \<Rightarrow> string option \<Rightarrow> string" where
  "build_tile_url_from_template template z x y subdomain =
     (let url = str_replace (str_replace (str_replace template ''{z}'' (coord_str z))
                    ''{x}'' (coord_str x)) ''{y}'' (coord_str y)
      in if str_contains ''{s}'' url
         then str_replace url ''{s}'' (case subdomain of None \<Rightarrow> ''a'' | Some s \<Rightarrow> s)
         else url)"

definition getOsmTileUrl :: "coord \<Rightarrow> coord \<Rightarrow> coord \<Rightarrow> string" where
  "getOsmTileUrl z x y =
     ''https://tile.openstreetmap.org/'' @ coord_str z @ ''/'' @ coord_str x @ ''/''
       @ coord_str y @ ''.png''"

text \<open>
  The tools return \<^verbatim>\<open>json.dumps(payload, ensure_ascii=False, indent=2)\<close>; the model
  returns the payload, which \<^verbatim>\<open>json.dumps\<close> renders without loss.
\<close>

definition getProviderTileUrl ::
  "string \<Rightarrow> coord \<Rightarrow> coord \<Rightarrow> coord \<Rightarrow> string option \<Rightarrow> py_exn + 'f json" where
  "getProviderTileUrl provider z x y subdomain =
     (case get_provider_info provider of
        Inl e \<Rightarrow> Inl e
      | Inr info \<Rightarrow>
          (let url = build_tile_url_from_template (urlTemplate info) z x y subdomain
           in Inr (JObj [
                (''provider'', JStr provider),
                (''z'', coord_json z),
                (''x'', coord_json x),
                (''y'', coord_json y),
                (''url'', JStr url),
                (''attribution'', JStr (attribution info)),
                (''description'', JStr (description info))])))"

definition getMapLibreStyle ::
  "string \<Rightarrow> 'f json \<Rightarrow> 'f json \<Rightarrow> 'f json \<Rightarrow> py_exn + 'f json" where
  "getMapLibreStyle provider centerLat centerLon zoom =
     (case get_provider_info provider of
        Inl e \<Rightarrow> Inl e
      | Inr info \<Rightarrow>
          (let tile_url = build_tile_url_from_template (urlTemplate info)
                            (CStr ''{z}'') (CStr ''{x}'') (CStr ''{y}'') (Some ''a'')
           in Inr (JObj [
                (''version'', JInt 8),
                (''name'', JStr (provider @ '' basemap'')),
                (''sources'', JObj [
                   (''basemap'', JObj [
                      (''type'', JStr ''raster''),
                      (''tiles'', JArr [JStr tile_url]),
                      (''tileSize'', JInt 256),
                      (''attribution'', JStr (attribution info))])]),
                (''layers'', JArr [JObj [
                   (''id'', JStr ''basemap''),
                   (''type'', JStr ''raster''),
                   (''source'', JStr ''basemap'')]]),
                (''center'', JArr [centerLon, centerLat]),
                (''zoom'', zoom)])))"

text \<open>Reading the payloads back: \<^verbatim>\<open>payload[k]\<close> on a JSON object.\<close>

fun obj_field :: "string \<Rightarrow> 'f json \<Rightarrow> 'f json" where
  "obj_field k (JObj d) = dict_get d k"
| "obj_field k v = JNull"

text \<open>The list \<^verbatim>\<open>style["sources"]["basemap"]["tiles"]\<close> of a style document.\<close>

definition style_tiles :: "'f json \<Rightarrow> 'f json" where
  "style_tiles style = obj_field ''tiles'' (obj_field ''basemap'' (obj_field ''sources'' style))"

text \<open>
  What a map client does with a tile URL of a style document: it puts the decimal
  tile coordinates in the place of the three placeholders.
\<close>

definition substitute_zxy :: "string \<Rightarrow> int \<Rightarrow> int \<Rightarrow> int \<Rightarrow> string" where
  "substitute_zxy url z x y =
     str_replace (str_replace (str_replace url ''{z}'' (int_str z)) ''{x}'' (int_str x))
       ''{y}'' (int_str y)"

section \<open>Python floats\<close>

text \<open>
  A Python \<^verbatim>\<open>float\<close> is an IEEE 754 binary64 number: a finite value (a real number that
  the format represents), an infinity or a NaN.  The sign of zero is not kept: the
  code modelled here never observes it (a division by either zero raises).
\<close>

datatype pyfloat = Fin real | PInf | NInf | NaN

text \<open>
  Rounding to nearest, ties to even.  Around \<open>x\<close> the format is a grid of step
  \<open>quantum x\<close>: 53 significant bits, hence \<open>2\<close> to the power \<open>\<lfloor>log\<^sub>2 \<bar>x\<bar>\<rfloor> - 52\<close>, and
  never finer than the subnormal step \<open>2\<close> to the \<open>-1074\<close>.
\<close>

definition quantum_exp :: "real \<Rightarrow> int" where
  "quantum_exp x = max (\<lfloor>log 2 \<bar>x\<bar>\<rfloor> - 52) (- 1074)"

definition quantum :: "real \<Rightarrow> real" where
  "quantum x = 2 powi quantum_exp x"

definition round_ties_even :: "real \<Rightarrow> int" where
  "round_ties_even r =
     (let f = \<lfloor>r\<rfloor>; d = r - of_int f
      in if d < 1 / 2 then f
         else if 1 / 2 < d then f + 1
         else if even f then f else f + 1)"

definition rnd :: "real \<Rightarrow> real" where
  "rnd x = (if x = 0 then 0 else of_int (round_ties_even (x / quantum x)) * quantum x)"

text \<open>The float nearest to a real; beyond the largest finite float the result is infinite.\<close>

definition overflow_threshold :: real where
  "overflow_threshold = 2 ^ 1024"

definition fl :: "real \<Rightarrow> pyfloat" where
  "fl x = (let y = rnd x
           in if overflow_threshold \<le> y then PInf
              else if y \<le> - overflow_threshold then NInf
              else Fin y)"

text \<open>\<^verbatim>\<open>a + b\<close>, \<open>a - b\<close> and \<open>a * b\<close> on floats never raise.\<close>

fun fneg :: "pyfloat \<Rightarrow> pyfloat" where
  "fneg (Fin a) = Fin (- a)"
| "fneg PInf = NInf"
| "fneg NInf = PInf"
| "fneg NaN = NaN"

fun fadd :: "pyfloat \<Rightarrow> pyfloat \<Rightarrow> pyfloat" where
  "fadd (Fin a) (Fin b) = fl (a + b)"
| "fadd NaN b = NaN"
| "fadd a NaN = NaN"
| "fadd PInf NInf = NaN"
| "fadd NInf PInf = NaN"
| "fadd PInf b = PInf"
| "fadd NInf b = NInf"
| "fadd a PInf = PInf"
| "fadd a NInf = NInf"

definition fsub :: "pyfloat \<Rightarrow> pyfloat \<Rightarrow> pyfloat" where
  "fsub a b = fadd a (fneg b)"

text \<open>The sign of a float that is not a NaN, as \<open>-1\<close>, \<open>0\<close> or \<open>1\<close>.\<close>

fun fsign :: "pyfloat \<Rightarrow> int" where
  "fsign (Fin a) = (if a < 0 then - 1 else if a = 0 then 0 else 1)"
| "fsign PInf = 1"
| "fsign NInf = - 1"
| "fsign NaN = 0"

definition signed_inf :: "int \<Rightarrow> pyfloat" where
  "signed_inf s = (if s = 0 then NaN else if 0 < s then PInf else NInf)"

fun fmul :: "pyfloat \<Rightarrow> pyfloat \<Rightarrow> pyfloat" where
  "fmul (Fin a) (Fin b) = fl (a * b)"
| "fmul NaN b = NaN"
| "fmul a NaN = NaN"
| "fmul a b = signed_inf (fsign a * fsign b)"

text \<open>
  \<^verbatim>\<open>a / b\<close> on floats raises \<^verbatim>\<open>ZeroDivisionError\<close> for a zero divisor, whatever
  the dividend.
\<close>

fun fdiv :: "pyfloat \<Rightarrow> pyfloat \<Rightarrow> py_exn + pyfloat" where
  "fdiv a (Fin b) =
     (if b = 0 then Inl (Raise ZeroDivisionError ''float division by zero'')
      else case a of
             Fin x \<Rightarrow> Inr (fl (x / b))
           | NaN \<Rightarrow> Inr NaN
           | _ \<Rightarrow> Inr (signed_inf (fsign a * fsign (Fin b))))"
| "fdiv NaN b = Inr NaN"
| "fdiv a NaN = Inr NaN"
| "fdiv (Fin x) b = Inr (Fin 0)"
| "fdiv a b = Inr NaN"

text \<open>\<^verbatim>\<open>float(i)\<close> for an integer, also the conversion in \<^verbatim>\<open>i * x\<close> and \<^verbatim>\<open>i / x\<close>.\<close>

definition int_to_float :: "int \<Rightarrow> py_exn + pyfloat" where
  "int_to_float i =
     (case fl (of_int i) of
        Fin y \<Rightarrow> Inr (Fin y)
      | _ \<Rightarrow> Inl (Raise OverflowError ''int too large to convert to float''))"

text \<open>\<^verbatim>\<open>int(x)\<close> for a float: truncation towards zero.\<close>

definition trunc :: "real \<Rightarrow> int" where
  "trunc r = (if 0 \<le> r then \<lfloor>r\<rfloor> else \<lceil>r\<rceil>)"

fun float_to_int :: "pyfloat \<Rightarrow> py_exn + int" where
  "float_to_int (Fin r) = Inr (trunc r)"
| "float_to_int NaN = Inl (Raise ValueError ''cannot convert float NaN to integer'')"
| "float_to_int a = Inl (Raise OverflowError ''cannot convert float infinity to integer'')"

text \<open>Sequencing of steps that may raise.\<close>

definition exn_bind :: "py_exn + 'a \<Rightarrow> ('a \<Rightarrow> py_exn + 'b) \<Rightarrow> py_exn + 'b" where
  "exn_bind m f = (case m of Inl e \<Rightarrow> Inl e | Inr v \<Rightarrow> f v)"

section \<open>Tile indices\<close>

text \<open>
  \<^verbatim>\<open>math.tan\<close>, \<^verbatim>\<open>math.cos\<close> and \<^verbatim>\<open>math.log\<close> call the C library of the platform,
  which is not part of the repository and which IEEE 754 does not pin down.  The model
  takes the three functions as a parameter: each maps a finite float to the finite
  float that the library returns for it (\<open>lib_log\<close> on positive arguments).
\<close>

record libm =
  lib_tan :: "real \<Rightarrow> real"
  lib_cos :: "real \<Rightarrow> real"
  lib_log :: "real \<Rightarrow> real"

text \<open>A library that returns the float nearest to the exact value.\<close>

definition libm_exact :: libm where
  "libm_exact = \<lparr> lib_tan = (\<lambda>x. rnd (tan x)), lib_cos = (\<lambda>x. rnd (cos x)),
                   lib_log = (\<lambda>x. rnd (ln x)) \<rparr>"

text \<open>
  The wrappers of the \<^verbatim>\<open>math\<close> module: an infinite argument of \<^verbatim>\<open>tan\<close> or
  \<^verbatim>\<open>cos\<close>, and an argument of \<^verbatim>\<open>log\<close> that is not positive, raise
  \<^verbatim>\<open>ValueError\<close>; a NaN goes through.
\<close>

fun math_tan :: "libm \<Rightarrow> pyfloat \<Rightarrow> py_exn + pyfloat" where
  "math_tan L (Fin r) = Inr (Fin (lib_tan L r))"
| "math_tan L NaN = Inr NaN"
| "math_tan L a = Inl (Raise ValueError ''math domain error'')"

fun math_cos :: "libm \<Rightarrow> pyfloat \<Rightarrow> py_exn + pyfloat" where
  "math_cos L (Fin r) = Inr (Fin (lib_cos L r))"
| "math_cos L NaN = Inr NaN"
| "math_cos L a = Inl (Raise ValueError ''math domain error'')"

fun math_log :: "libm \<Rightarrow> pyfloat \<Rightarrow> py_exn + pyfloat" where
  "math_log L (Fin r) =
     (if 0 < r then Inr (Fin (lib_log L r)) else Inl (Raise ValueError ''math domain error''))"
| "math_log L NaN = Inr NaN"
| "math_log L PInf = Inr PInf"
| "math_log L NInf = Inl (Raise ValueError ''math domain error'')"

text \<open>
  \<^verbatim>\<open>math.pi\<close> is the float nearest to \<open>\<pi>\<close>, and \<^verbatim>\<open>math.radians(x)\<close> is the float
  product of \<open>x\<close> and the float quotient \<^verbatim>\<open>math.pi / 180.0\<close>.  Both constants are
  written out as the fractions that the floats are.
\<close>

definition math_pi :: real where
  "math_pi = 884279719003555 / 2 ^ 48"

definition deg_to_rad :: real where
  "deg_to_rad = 5030569068109113 / 2 ^ 58"

definition math_radians :: "pyfloat \<Rightarrow> pyfloat" where
  "math_radians x = fmul x (Fin deg_to_rad)"

text \<open>
  \<^verbatim>\<open>n = 2 ** zoom\<close> is an \<^verbatim>\<open>int\<close> for \<open>zoom \<ge> 0\<close> and a float otherwise, and
  \<^verbatim>\<open>n * x\<close> with a float \<open>x\<close> converts an \<^verbatim>\<open>int\<close> \<open>n\<close> first.
\<close>

datatype pynum = PyInt int | PyFloat pyfloat

definition pow2 :: "int \<Rightarrow> pynum" where
  "pow2 zoom = (if 0 \<le> zoom then PyInt (2 ^ nat zoom) else PyFloat (fl (2 powi zoom)))"

fun num_times :: "pynum \<Rightarrow> pyfloat \<Rightarrow> py_exn + pyfloat" where
  "num_times (PyInt i) x = exn_bind (int_to_float i) (\<lambda>f. Inr (fmul f x))"
| "num_times (PyFloat f) x = Inr (fmul f x)"

text \<open>\<^verbatim>\<open>x_tile = n * ((lon_deg + 180.0) / 360.0)\<close>\<close>

definition x_tile_of :: "pynum \<Rightarrow> pyfloat \<Rightarrow> py_exn + pyfloat" where
  "x_tile_of n lon_deg =
     exn_bind (fdiv (fadd lon_deg (Fin 180)) (Fin 360)) (\<lambda>q. num_times n q)"

text \<open>
  \<^verbatim>\<open>y_tile = n * (1.0 - (math.log(math.tan(lat_rad) + 1.0 / math.cos(lat_rad)) / math.pi)) / 2.0\<close>,
  the operands evaluated from left to right.
\<close>

definition y_tile_of :: "libm \<Rightarrow> pynum \<Rightarrow> pyfloat \<Rightarrow> py_exn + pyfloat" where
  "y_tile_of L n lat_rad =
     exn_bind (math_tan L lat_rad) (\<lambda>t.
     exn_bind (math_cos L lat_rad) (\<lambda>c.
     exn_bind (fdiv (Fin 1) c) (\<lambda>sec.
     exn_bind (math_log L (fadd t sec)) (\<lambda>lg.
     exn_bind (fdiv lg (Fin math_pi)) (\<lambda>r.
     exn_bind (num_times n (fsub (Fin 1) r)) (\<lambda>p.
       fdiv p (Fin 2)))))))"

definition lat_lon_to_tile_indices ::
  "libm \<Rightarrow> pyfloat \<Rightarrow> pyfloat \<Rightarrow> int \<Rightarrow> py_exn + int \<times> int" where
  "lat_lon_to_tile_indices L lat_deg lon_deg zoom =
     (let lat_rad = math_radians lat_deg;
          n = pow2 zoom
      in exn_bind (x_tile_of n lon_deg) (\<lambda>x_tile.
         exn_bind (y_tile_of L n lat_rad) (\<lambda>y_tile.
         exn_bind (float_to_int x_tile) (\<lambda>x.
         exn_bind (float_to_int y_tile) (\<lambda>y. Inr (x, y))))))"

definition latLonToTile :: "libm \<Rightarrow> pyfloat \<Rightarrow> pyfloat \<Rightarrow> int \<Rightarrow> py_exn + pyfloat json" where
  "latLonToTile L lat lon zoom =
     exn_bind (lat_lon_to_tile_indices L lat lon zoom) (\<lambda>(x, y).
       Inr (JObj [(''z'', JInt zoom), (''x'', JInt x), (''y'', JInt y)]))"

section \<open>Python operations on JSON values\<close>

text \<open>\<^verbatim>\<open>bool(v)\<close>, as \<^verbatim>\<open>if not v\<close>, \<^verbatim>\<open>v or d\<close> and \<^verbatim>\<open>[p for p in ps if p]\<close> test it.\<close>

fun truthy :: "pyfloat json \<Rightarrow> bool" where
  "truthy JNull = False"
| "truthy (JBool b) = b"
| "truthy (JInt i) = (i \<noteq> 0)"
| "truthy (JFloat f) = (f \<noteq> Fin 0)"
| "truthy (JStr s) = (s \<noteq> [])"
| "truthy (JArr xs) = (xs \<noteq> [])"
| "truthy (JObj d) = (d \<noteq> [])"

text \<open>\<^verbatim>\<open>for item in v\<close>: the items of a list, the keys of a dict, the characters of a string.\<close>

fun py_iter :: "pyfloat json \<Rightarrow> py_exn + pyfloat json list" where
  "py_iter (JArr xs) = Inr xs"
| "py_iter (JObj d) = Inr (map (\<lambda>(k, v). JStr k) d)"
| "py_iter (JStr s) = Inr (map (\<lambda>c. JStr [c]) s)"
| "py_iter v = Inl (Raise TypeError ''object is not iterable'')"

text \<open>\<^verbatim>\<open>v[k]\<close> with a string key \<open>k\<close>.\<close>

fun subscript_key :: "pyfloat json \<Rightarrow> string \<Rightarrow> py_exn + pyfloat json" where
  "subscript_key (JObj d) k =
     (case map_of d k of None \<Rightarrow> Inl (Raise KeyError k) | Some v \<Rightarrow> Inr v)"
| "subscript_key (JStr s) k = Inl (Raise TypeError ''string indices must be integers'')"
| "subscript_key (JArr xs) k = Inl (Raise TypeError ''list indices must be integers or slices'')"
| "subscript_key v k = Inl (Raise TypeError ''object is not subscriptable'')"

text \<open>\<^verbatim>\<open>v.get(k)\<close> and \<^verbatim>\<open>v.get(k, default)\<close>: only a dict has the method.\<close>

fun method_get :: "pyfloat json \<Rightarrow> string \<Rightarrow> pyfloat json \<Rightarrow> py_exn + pyfloat json" where
  "method_get (JObj d) k dflt = Inr (dict_get_default d k dflt)"
| "method_get v k dflt = Inl (Raise AttributeError ''object has no attribute get'')"

text \<open>
  \<^verbatim>\<open>float(v)\<close>.  The text-to-float conversion of Python is a parameter \<open>parse\<close>
  (\<open>None\<close> where Python raises \<^verbatim>\<open>ValueError\<close>).
\<close>

fun py_float :: "(string \<Rightarrow> pyfloat option) \<Rightarrow> pyfloat json \<Rightarrow> py_exn + pyfloat" where
  "py_float parse (JStr s) =
     (case parse s of
        None \<Rightarrow> Inl (Raise ValueError (''could not convert string to float: '' @ s))
      | Some f \<Rightarrow> Inr f)"
| "py_float parse (JFloat f) = Inr f"
| "py_float parse (JInt i) = int_to_float i"
| "py_float parse (JBool b) = Inr (Fin (if b then 1 else 0))"
| "py_float parse v = Inl (Raise TypeError ''float() argument must be a string or a real number'')"

text \<open>\<^verbatim>\<open>v / c\<close> for a float constant \<open>c\<close>.\<close>

fun div_by_float :: "pyfloat json \<Rightarrow> pyfloat \<Rightarrow> py_exn + pyfloat" where
  "div_by_float (JFloat f) c = fdiv f c"
| "div_by_float (JInt i) c = exn_bind (int_to_float i) (\<lambda>f. fdiv f c)"
| "div_by_float (JBool b) c = fdiv (Fin (if b then 1 else 0)) c"
| "div_by_float v c = Inl (Raise TypeError ''unsupported operand type(s) for /'')"

text \<open>\<^verbatim>\<open>xs[:m]\<close> on a list: a negative \<open>m\<close> counts from the end.\<close>

definition slice_to :: "'a list \<Rightarrow> int \<Rightarrow> 'a list" where
  "slice_to xs m = (if 0 \<le> m then take (nat m) xs else take (nat (int (length xs) + m)) xs)"

text \<open>\<^verbatim>\<open>sep.join(pieces)\<close>: every piece has to be a string.\<close>

fun str_join :: "string \<Rightarrow> pyfloat json list \<Rightarrow> py_exn + string" where
  "str_join sep [] = Inr []"
| "str_join sep [JStr s] = Inr s"
| "str_join sep (JStr s # ps) = exn_bind (str_join sep ps) (\<lambda>r. Inr (s @ sep @ r))"
| "str_join sep (v # ps) = Inl (Raise TypeError ''sequence item: expected str instance'')"

section \<open>The geo server\<close>

text \<open>
  Each tool makes one HTTP call.  Its outcome is an argument \<open>upstream\<close> of the model:
  the decoded JSON body, or the exception that \<^verbatim>\<open>http_get_json\<close> or
  \<^verbatim>\<open>http_post_form_json\<close> raised (a transport failure, a status that
  \<^verbatim>\<open>raise_for_status\<close> rejects, a body that is not JSON), all of them derived from
  \<^verbatim>\<open>Exception\<close>.
\<close>

text \<open>The body of the \<^verbatim>\<open>try\<close> of \<^verbatim>\<open>geocodeAddress\<close>.\<close>

definition item_lat_lon ::
  "(string \<Rightarrow> pyfloat option) \<Rightarrow> pyfloat json \<Rightarrow> py_exn + pyfloat \<times> pyfloat" where
  "item_lat_lon parse item =
     exn_bind (subscript_key item ''lat'') (\<lambda>v.
     exn_bind (py_float parse v) (\<lambda>lat.
     exn_bind (subscript_key item ''lon'') (\<lambda>w.
     exn_bind (py_float parse w) (\<lambda>lon. Inr (lat, lon)))))"

definition geocode_record :: "pyfloat json \<Rightarrow> pyfloat \<Rightarrow> pyfloat \<Rightarrow> py_exn + pyfloat json" where
  "geocode_record item lat lon =
     exn_bind (method_get item ''display_name'' JNull) (\<lambda>dn.
     exn_bind (method_get item ''type'' JNull) (\<lambda>ty.
     exn_bind (method_get item ''class'' JNull) (\<lambda>cl.
       Inr (JObj [(''displayName'', dn), (''lat'', JFloat lat), (''lon'', JFloat lon),
                  (''type'', ty), (''class'', cl)]))))"

text \<open>
  The loop over the raw results: \<^verbatim>\<open>except (KeyError, ValueError): continue\<close> skips
  the item, any other exception leaves the loop and the tool.
\<close>

fun geocode_loop ::
  "(string \<Rightarrow> pyfloat option) \<Rightarrow> pyfloat json list \<Rightarrow> py_exn + pyfloat json list" where
  "geocode_loop parse [] = Inr []"
| "geocode_loop parse (item # items) =
     (case item_lat_lon parse item of
        Inl e \<Rightarrow>
          if exn_cls e = KeyError \<or> exn_cls e = ValueError then geocode_loop parse items
          else Inl e
      | Inr (lat, lon) \<Rightarrow>
          exn_bind (geocode_record item lat lon) (\<lambda>r.
          exn_bind (geocode_loop parse items) (\<lambda>rs. Inr (r # rs))))"

definition geocodeAddress ::
  "(string \<Rightarrow> pyfloat option) \<Rightarrow> py_exn + pyfloat json \<Rightarrow> pyfloat json \<Rightarrow> py_exn + pyfloat json" where
  "geocodeAddress parse upstream query =
     exn_bind upstream (\<lambda>raw_results.
     exn_bind (py_iter raw_results) (\<lambda>items.
     exn_bind (geocode_loop parse items) (\<lambda>results.
       Inr (JObj [(''query'', query), (''results'', JArr results)]))))"

text \<open>The loop of \<^verbatim>\<open>searchPois\<close> over the elements.\<close>

definition poi_record :: "pyfloat json \<Rightarrow> py_exn + pyfloat json" where
  "poi_record el =
     exn_bind (method_get el ''tags'' (JObj [])) (\<lambda>tags.
     exn_bind (method_get tags ''name'' JNull) (\<lambda>nm.
     exn_bind (method_get tags ''amenity'' JNull) (\<lambda>am.
     exn_bind (method_get el ''lat'' JNull) (\<lambda>la.
     exn_bind (method_get el ''lon'' JNull) (\<lambda>lo.
       Inr (JObj [(''name'', nm), (''amenity'', am), (''lat'', la), (''lon'', lo)]))))))"

fun poi_loop :: "pyfloat json list \<Rightarrow> py_exn + pyfloat json list" where
  "poi_loop [] = Inr []"
| "poi_loop (el # els) =
     exn_bind (method_get el ''type'' JNull) (\<lambda>ty.
       if ty \<noteq> JStr ''node'' then poi_loop els
       else exn_bind (poi_record el) (\<lambda>r.
            exn_bind (poi_loop els) (\<lambda>rs. Inr (r # rs))))"

text \<open>
  \<^verbatim>\<open>elements[:maxResults]\<close> followed by the iteration of the \<^verbatim>\<open>for\<close>.  A dict
  cannot be sliced (\<^verbatim>\<open>TypeError\<close>; \<^verbatim>\<open>KeyError\<close> from Python 3.12 on).
\<close>

fun sliced_items :: "pyfloat json \<Rightarrow> int \<Rightarrow> py_exn + pyfloat json list" where
  "sliced_items (JArr xs) m = Inr (slice_to xs m)"
| "sliced_items (JStr s) m = Inr (map (\<lambda>c. JStr [c]) (slice_to s m))"
| "sliced_items (JObj d) m = Inl (Raise TypeError ''unhashable type: slice'')"
| "sliced_items v m = Inl (Raise TypeError ''object is not subscriptable'')"

definition searchPois ::
  "py_exn + pyfloat json \<Rightarrow> pyfloat json \<Rightarrow> pyfloat json \<Rightarrow> pyfloat json \<Rightarrow> int \<Rightarrow> int
     \<Rightarrow> py_exn + pyfloat json" where
  "searchPois upstream keyword lat lon radiusM maxResults =
     (case upstream of
        Inl e \<Rightarrow>
          Inr (JObj [
            (''center'', JObj [(''lat'', lat), (''lon'', lon)]),
            (''search'', JObj [(''keyword'', keyword), (''radiusM'', JInt radiusM)]),
            (''results'', JArr []),
            (''error'', JStr (''Overpass request failed: '' @ exn_str e))])
      | Inr raw \<Rightarrow>
          (let elements = (case raw of JObj d \<Rightarrow> dict_get_default d ''elements'' (JArr [])
                                     | _ \<Rightarrow> JArr [])
           in exn_bind (sliced_items elements maxResults) (\<lambda>els.
              exn_bind (poi_loop els) (\<lambda>pois.
                Inr (JObj [
                  (''center'', JObj [(''lat'', lat), (''lon'', lon)]),
                  (''search'', JObj [(''keyword'', keyword), (''radiusM'', JInt radiusM)]),
                  (''results'', JArr pois)])))))"

text \<open>The two nested loops of \<^verbatim>\<open>basicRoute\<close> over legs and steps.\<close>

definition step_summary :: "pyfloat json \<Rightarrow> py_exn + pyfloat json" where
  "step_summary step =
     exn_bind (method_get step ''maneuver'' (JObj [])) (\<lambda>maneuver.
     exn_bind (method_get step ''name'' JNull) (\<lambda>nm.
     exn_bind (method_get maneuver ''modifier'' JNull) (\<lambda>modifier.
     exn_bind (method_get maneuver ''type'' JNull) (\<lambda>step_type.
       (let instruction = (if truthy nm then nm else JStr []);
            pieces = filter truthy [step_type, modifier, instruction]
        in exn_bind (str_join '' - '' pieces) (\<lambda>t. Inr (JStr t)))))))"

fun steps_loop :: "pyfloat json list \<Rightarrow> py_exn + pyfloat json list" where
  "steps_loop [] = Inr []"
| "steps_loop (step # rest) =
     exn_bind (step_summary step) (\<lambda>t.
     exn_bind (steps_loop rest) (\<lambda>ts. Inr (t # ts)))"

fun legs_loop :: "pyfloat json list \<Rightarrow> py_exn + pyfloat json list" where
  "legs_loop [] = Inr []"
| "legs_loop (leg # legs) =
     exn_bind (method_get leg ''steps'' (JArr [])) (\<lambda>ss.
     exn_bind (py_iter ss) (\<lambda>steps.
     exn_bind (steps_loop steps) (\<lambda>ts.
     exn_bind (legs_loop legs) (\<lambda>us. Inr (ts @ us)))))"

text \<open>\<^verbatim>\<open>routes[0]\<close> on a value that passed \<^verbatim>\<open>if not routes\<close>.\<close>

fun first_item :: "pyfloat json \<Rightarrow> py_exn + pyfloat json" where
  "first_item (JArr (r # rs)) = Inr r"
| "first_item (JArr []) = Inl (Raise IndexError ''list index out of range'')"
| "first_item (JStr (c # cs)) = Inr (JStr [c])"
| "first_item (JStr []) = Inl (Raise IndexError ''string index out of range'')"
| "first_item (JObj d) = Inl (Raise KeyError ''0'')"
| "first_item v = Inl (Raise TypeError ''object is not subscriptable'')"

definition basicRoute ::
  "py_exn + pyfloat json \<Rightarrow> pyfloat json \<Rightarrow> pyfloat json \<Rightarrow> pyfloat json \<Rightarrow> pyfloat json
     \<Rightarrow> pyfloat json \<Rightarrow> py_exn + pyfloat json" where
  "basicRoute upstream startLat startLon endLat endLon profile =
     exn_bind upstream (\<lambda>data.
       (let routes = (case data of JObj d \<Rightarrow> dict_get_default d ''routes'' (JArr [])
                                 | _ \<Rightarrow> JArr [])
        in if \<not> truthy routes
           then Inr (JObj [
                  (''error'', JStr ''No route found''),
                  (''start'', JObj [(''lat'', startLat), (''lon'', startLon)]),
                  (''end'', JObj [(''lat'', endLat), (''lon'', endLon)])])
           else
             exn_bind (first_item routes) (\<lambda>route.
             exn_bind (method_get route ''distance'' (JInt 0)) (\<lambda>dist.
             exn_bind (div_by_float dist (Fin 1000)) (\<lambda>distance_km.
             exn_bind (method_get route ''duration'' (JInt 0)) (\<lambda>dur.
             exn_bind (div_by_float dur (Fin 60)) (\<lambda>duration_min.
             exn_bind (method_get route ''legs'' (JArr [])) (\<lambda>ls.
             exn_bind (py_iter ls) (\<lambda>legs.
             exn_bind (legs_loop legs) (\<lambda>steps.
               Inr (JObj [
                 (''start'', JObj [(''lat'', startLat), (''lon'', startLon)]),
                 (''end'', JObj [(''lat'', endLat), (''lon'', endLon)]),
                 (''profile'', profile),
                 (''distanceKm'', JFloat distance_km),
                 (''durationMin'', JFloat duration_min),
                 (''steps'', JArr steps)])))))))))))"

section \<open>Facts about strings\<close>

lemma str_contains_sublist: "str_contains sub s = sublist sub s"
  by (induction s) (auto simp: sublist_Cons_right)

lemma replace_scan_head:
  assumes "new \<noteq> []" and "hd new \<noteq> a" and "replace_scan old new s = a # r"
  shows "\<exists>cs. s = a # cs \<and> r = replace_scan old new cs"
proof (cases s)
  case Nil
  with assms(3) show ?thesis by simp
next
  case (Cons c cs)
  show ?thesis
  proof (cases "old \<noteq> [] \<and> prefix old (c # cs)")
    case True
    obtain n ns where new: "new = n # ns" using assms(1) by (cases new) auto
    with True assms(3) Cons have "n = a" by simp
    with new assms(2) show ?thesis by simp
  next
    case False
    with assms(3) Cons show ?thesis by auto
  qed
qed

lemma s_token_after:
  assumes "CHR ''s'' \<notin> set w" and "w \<noteq> [] \<Longrightarrow> last w \<noteq> CHR ''{''"
      and "sublist ''{s}'' (w @ r)"
  shows "sublist ''{s}'' r"
  using assms
proof (induction w)
  case Nil
  then show ?case by simp
next
  case (Cons n ns)
  from Cons.prems(3) consider "prefix ''{s}'' (n # ns @ r)" | "sublist ''{s}'' (ns @ r)"
    by (auto simp: sublist_Cons_right)
  then show ?case
  proof cases
    case 1
    then have n: "n = CHR ''{''" and p: "prefix ''s}'' (ns @ r)" by simp_all
    show ?thesis
    proof (cases ns)
      case Nil
      with n Cons.prems(2) show ?thesis by simp
    next
      case (Cons m ms)
      with p have "m = CHR ''s''" by simp
      with Cons Cons.prems(1) show ?thesis by simp
    qed
  next
    case 2
    moreover have "CHR ''s'' \<notin> set ns" using Cons.prems(1) by simp
    moreover have "ns \<noteq> [] \<Longrightarrow> last ns \<noteq> CHR ''{''" using Cons.prems(2) by simp
    ultimately show ?thesis using Cons.IH by blast
  qed
qed

lemma replace_scan_no_s_token:
  assumes "new \<noteq> []" and "CHR ''s'' \<notin> set new" and "hd new \<noteq> CHR ''}''"
      and "last new \<noteq> CHR ''{''" and "sublist ''{s}'' (replace_scan old new s)"
  shows "sublist ''{s}'' s"
  using assms
proof (induction old new s rule: replace_scan.induct)
  case (1 old new)
  then show ?case by simp
next
  case (2 old new c cs)
  show ?case
  proof (cases "old \<noteq> [] \<and> prefix old (c # cs)")
    case True
    with "2.prems"(5) have "sublist ''{s}'' (new @ replace_scan old new (drop (length old) (c # cs)))"
      by simp
    then have "sublist ''{s}'' (replace_scan old new (drop (length old) (c # cs)))"
      using s_token_after[of new] "2.prems"(2,4) by blast
    then have "sublist ''{s}'' (drop (length old) (c # cs))"
      using "2.IH"(1)[OF True] "2.prems"(1,2,3,4) by blast
    then show ?thesis
      using sublist_drop sublist_order.order_trans by blast
  next
    case False
    have hs: "hd new \<noteq> CHR ''s''" using "2.prems"(1,2) by (cases new) auto
    have "replace_scan old new (c # cs) = c # replace_scan old new cs" using False by auto
    with "2.prems"(5) have "sublist ''{s}'' (c # replace_scan old new cs)" by simp
    then consider "prefix ''{s}'' (c # replace_scan old new cs)" | "sublist ''{s}'' (replace_scan old new cs)"
      by (auto simp: sublist_Cons_right)
    then show ?thesis
    proof cases
      case 1
      then have c: "c = CHR ''{''" and "prefix ''s}'' (replace_scan old new cs)" by simp_all
      then obtain r1 where r1: "replace_scan old new cs = CHR ''s'' # r1" "prefix ''}'' r1"
        by (cases "replace_scan old new cs") auto
      from replace_scan_head[OF "2.prems"(1) hs r1(1)] obtain cs1
        where cs1: "cs = CHR ''s'' # cs1" "r1 = replace_scan old new cs1" by blast
      from r1(2) obtain r2 where r2: "r1 = CHR ''}'' # r2" by (cases r1) auto
      from replace_scan_head[OF "2.prems"(1,3) r2[unfolded cs1(2)]] obtain cs2
        where "cs1 = CHR ''}'' # cs2" by blast
      with c cs1(1) have "prefix ''{s}'' (c # cs)" by simp
      then show ?thesis by (simp add: sublist_Cons_right)
    next
      case 2
      then have "sublist ''{s}'' cs" using "2.IH"(2)[OF False] "2.prems"(1,2,3,4) by blast
      then show ?thesis by (simp add: sublist_Cons_right)
    qed
  qed
qed

lemma digit_char_range: "d < 10 \<Longrightarrow> digit_char d \<in> set ''0123456789''"
  unfolding digit_char_def by (rule nth_mem) simp

lemma nat_dec_digits: "set (nat_dec n) \<subseteq> set ''0123456789''"
proof (induction n rule: nat_dec.induct)
  case (1 n)
  show ?case
  proof (cases "n < 10")
    case True
    then show ?thesis using digit_char_range[of n] by (subst nat_dec.simps) simp
  next
    case False
    have "n mod 10 < 10" by simp
    then have "digit_char (n mod 10) \<in> set ''0123456789''" by (rule digit_char_range)
    with False 1 show ?thesis by (subst nat_dec.simps) simp
  qed
qed

lemma nat_dec_nonempty: "nat_dec n \<noteq> []"
proof (cases "n < 10")
  case True
  then show ?thesis by (subst nat_dec.simps) simp
next
  case False
  then show ?thesis by (subst nat_dec.simps) simp
qed


lemma int_str_nonempty: "int_str i \<noteq> []"
  by (simp add: int_str_def nat_dec_nonempty)

lemma int_str_char:
  assumes "c \<in> set (int_str i)"
  shows "c = CHR ''-'' \<or> c \<in> set ''0123456789''"
proof (cases "i < 0")
  case True
  with assms have "c = CHR ''-'' \<or> c \<in> set (nat_dec (nat (- i)))"
    by (simp add: int_str_def)
  then show ?thesis using nat_dec_digits[of "nat (- i)"] by blast
next
  case False
  with assms have "c \<in> set (nat_dec (nat i))"
    by (simp add: int_str_def)
  then show ?thesis using nat_dec_digits[of "nat i"] by blast
qed

lemma int_str_no_brace:
  "CHR ''{'' \<notin> set (int_str i)" "CHR ''}'' \<notin> set (int_str i)" "CHR ''s'' \<notin> set (int_str i)"
  using int_str_char[of "CHR ''{''" i] int_str_char[of "CHR ''}''" i] int_str_char[of "CHR ''s''" i]
  by auto

lemma int_str_hd_last:
  "hd (int_str i) \<noteq> CHR ''}''" "last (int_str i) \<noteq> CHR ''{''"
proof -
  have "hd (int_str i) \<in> set (int_str i)" "last (int_str i) \<in> set (int_str i)"
    using int_str_nonempty[of i] by simp_all
  then show "hd (int_str i) \<noteq> CHR ''}''" "last (int_str i) \<noteq> CHR ''{''"
    using int_str_no_brace[of i] by metis+
qed

lemma coord_str_no_s_token:
  assumes "tile_coordinate c"
  shows "coord_str c \<noteq> [] \<and> CHR ''s'' \<notin> set (coord_str c) \<and> hd (coord_str c) \<noteq> CHR ''}''
         \<and> last (coord_str c) \<noteq> CHR ''{''"
proof (cases c)
  case (CInt i)
  then show ?thesis using int_str_nonempty[of i] int_str_no_brace(3)[of i] int_str_hd_last[of i] by simp
next
  case (CStr s)
  with assms show ?thesis by auto
qed

lemma replace_scan_skip:
  "CHR ''{'' \<notin> set w \<Longrightarrow>
   replace_scan (CHR ''{'' # os) new (w @ r) = w @ replace_scan (CHR ''{'' # os) new r"
  by (induction w) auto

lemma str_replace_no_s_token:
  assumes "\<not> str_contains ''{s}'' s" and "old \<noteq> []" and "tile_coordinate c"
  shows "\<not> str_contains ''{s}'' (str_replace s old (coord_str c))"
proof
  assume "str_contains ''{s}'' (str_replace s old (coord_str c))"
  then have "sublist ''{s}'' (replace_scan old (coord_str c) s)"
    using assms(2) by (simp add: str_replace_def str_contains_sublist)
  then have "sublist ''{s}'' s"
    using replace_scan_no_s_token[of "coord_str c" old s] coord_str_no_s_token[OF assms(3)] by blast
  with assms(1) show False by (simp add: str_contains_sublist)
qed

section \<open>Template resolution\<close>

text \<open>
  C9.  For every template without the token \<open>{s}\<close> and all tile coordinates \<open>z\<close>,
  \<open>x\<close>, \<open>y\<close> (each an integer or one of the placeholders),
  \<^verbatim>\<open>build_tile_url_from_template\<close> returns the same URL for every subdomain
  argument, given or not.  The function has no failing branch, so no error is raised.
  The source tests \<^verbatim>\<open>"{s}" in url\<close> after the coordinates have been filled in;
  neither the decimal text of an integer nor a placeholder can complete a \<open>{s}\<close>
  token, so the test fails as it would on the template and the subdomain is never
  looked at.
\<close>

theorem subdomain_ignored_without_s_token:
  assumes "\<not> str_contains ''{s}'' template"
      and "tile_coordinate z" and "tile_coordinate x" and "tile_coordinate y"
  shows "build_tile_url_from_template template z x y subdomain
         = build_tile_url_from_template template z x y subdomain'"
proof -
  have "\<not> str_contains ''{s}''
          (str_replace (str_replace (str_replace template ''{z}'' (coord_str z))
             ''{x}'' (coord_str x)) ''{y}'' (coord_str y))"
    using assms by (intro str_replace_no_s_token) simp_all
  then show ?thesis by (simp add: build_tile_url_from_template_def)
qed

theorem subdomain_ignored_witness:
  "\<not> str_contains ''{s}'' ''https://tile.osm.org/{z}/{x}/{y}.png'' \<and>
   tile_coordinate (CInt 5) \<and> tile_coordinate (CStr ''{x}'') \<and> tile_coordinate (CInt 2) \<and>
   build_tile_url_from_template ''https://tile.osm.org/{z}/{x}/{y}.png'' (CInt 5) (CStr ''{x}'') (CInt 2) (Some ''b'')
   = build_tile_url_from_template ''https://tile.osm.org/{z}/{x}/{y}.png'' (CInt 5) (CStr ''{x}'') (CInt 2) None"
  using subdomain_ignored_without_s_token[of "''https://tile.osm.org/{z}/{x}/{y}.png''" "CInt 5" "CStr ''{x}''" "CInt 2" "Some ''b''" None]
  by simp

text \<open>
  The hypothesis on the coordinates is needed, because the test is made on the filled
  URL: a string coordinate that carries \<open>{s}\<close> itself brings the subdomain back in.
\<close>

lemma coordinate_with_s_token:
  "\<not> str_contains ''{s}'' ''{z}'' \<and>
   build_tile_url_from_template ''{z}'' (CStr ''{s}'') (CInt 0) (CInt 0) (Some ''b'') = ''b'' \<and>
   build_tile_url_from_template ''{z}'' (CStr ''{s}'') (CInt 0) (CInt 0) None = ''a''"
  by (simp add: build_tile_url_from_template_def str_replace_def)

section \<open>Unknown providers\<close>

text \<open>
  C8.  For a provider name that is not a key of \<^verbatim>\<open>TILE_PROVIDERS\<close>,
  \<^verbatim>\<open>getProviderTileUrl\<close> raises: the result is the exception
  \<^verbatim>\<open>ValueError("Unknown tile provider: <name>")\<close>, which names the provider, and
  no payload is returned.
\<close>

theorem unknown_provider_raises:
  assumes "provider \<notin> fst ` set TILE_PROVIDERS"
  shows "getProviderTileUrl provider z x y subdomain
         = Inl (Raise ValueError (''Unknown tile provider: '' @ provider))"
proof -
  from assms have "map_of TILE_PROVIDERS provider = None" by (simp add: map_of_eq_None_iff)
  then show ?thesis by (simp add: getProviderTileUrl_def get_provider_info_def)
qed

theorem unknown_provider_raises_witness:
  "''DoesNotExist'' \<notin> fst ` set TILE_PROVIDERS \<and>
   getProviderTileUrl ''DoesNotExist'' (CInt 1) (CInt 1) (CInt 1) None
     = (Inl (Raise ValueError ''Unknown tile provider: DoesNotExist'') :: py_exn + unit json)"
  using unknown_provider_raises[of "''DoesNotExist''" "CInt 1" "CInt 1" "CInt 1" None]
  by (simp add: TILE_PROVIDERS_def)


section \<open>Style documents and concrete tile URLs\<close>

lemma style_tile_url_value:
  "build_tile_url_from_template (urlTemplate osm_mapnik)
     (CStr ''{z}'') (CStr ''{x}'') (CStr ''{y}'') (Some ''a'')
   = ''https://a.tile.openstreetmap.org/{z}/{x}/{y}.png''"
  by (simp add: build_tile_url_from_template_def osm_mapnik_def str_replace_def)

lemma substitute_zxy_value:
  "substitute_zxy ''https://a.tile.openstreetmap.org/{z}/{x}/{y}.png'' z x y
   = ''https://a.tile.openstreetmap.org/'' @ int_str z @ ''/'' @ int_str x @ ''/''
       @ int_str y @ ''.png''"
  by (simp add: substitute_zxy_def str_replace_def replace_scan_skip int_str_no_brace)

lemma provider_tile_url_value:
  "build_tile_url_from_template (urlTemplate osm_mapnik) (CInt z) (CInt x) (CInt y) (Some ''a'')
   = ''https://a.tile.openstreetmap.org/'' @ int_str z @ ''/'' @ int_str x @ ''/''
       @ int_str y @ ''.png''"
proof -
  let ?u = "''https://{s}.tile.openstreetmap.org/'' @ int_str z @ ''/'' @ int_str x @ ''/''
       @ int_str y @ ''.png''"
  have u: "str_replace (str_replace (str_replace (urlTemplate osm_mapnik) ''{z}'' (int_str z))
             ''{x}'' (int_str x)) ''{y}'' (int_str y) = ?u"
    by (simp add: osm_mapnik_def str_replace_def replace_scan_skip int_str_no_brace)
  have c: "str_contains ''{s}'' ?u" by simp
  have r: "str_replace ?u ''{s}'' ''a'' = ''https://a.tile.openstreetmap.org/'' @ int_str z @ ''/'' @ int_str x @ ''/''
       @ int_str y @ ''.png''"
    by (simp add: str_replace_def replace_scan_skip int_str_no_brace)
  show ?thesis
    unfolding build_tile_url_from_template_def coord_str.simps u Let_def
    using c r by simp
qed

text \<open>
  C5.  For every provider of the catalog and all integer tile coordinates: the style
  document of \<^verbatim>\<open>getMapLibreStyle\<close> lists exactly one tile URL, and putting the decimal
  \<open>z\<close>, \<open>x\<close>, \<open>y\<close> in the place of its placeholders gives the \<open>url\<close> field
  that \<^verbatim>\<open>getProviderTileUrl\<close> returns for the same provider and coordinates with
  subdomain \<open>"a"\<close>.
\<close>

theorem style_tile_url_round_trip:
  assumes "provider \<in> fst ` set TILE_PROVIDERS"
  shows "\<exists>style u payload.
           getMapLibreStyle provider centerLat centerLon zoom = Inr style
         \<and> style_tiles style = JArr [JStr u]
         \<and> getProviderTileUrl provider (CInt z) (CInt x) (CInt y) (Some ''a'') = Inr payload
         \<and> obj_field ''url'' payload = JStr (substitute_zxy u z x y)"
proof -
  from assms have p: "provider = ''OpenStreetMap.Mapnik''" by (simp add: TILE_PROVIDERS_def)
  have g: "get_provider_info provider = Inr osm_mapnik"
    by (simp add: p get_provider_info_def TILE_PROVIDERS_def)
  show ?thesis
    by (simp add: getMapLibreStyle_def getProviderTileUrl_def g style_tiles_def dict_get_def
        style_tile_url_value provider_tile_url_value substitute_zxy_value)
qed

theorem style_tile_url_round_trip_witness:
  "''OpenStreetMap.Mapnik'' \<in> fst ` set TILE_PROVIDERS \<and>
   (\<exists>style u payload.
           getMapLibreStyle ''OpenStreetMap.Mapnik'' (JInt 33) (JInt 35) (JInt 14) = Inr (style :: unit json)
         \<and> style_tiles style = JArr [JStr u]
         \<and> getProviderTileUrl ''OpenStreetMap.Mapnik'' (CInt 14) (CInt 9806) (CInt 6550) (Some ''a'')
             = Inr (payload :: unit json)
         \<and> obj_field ''url'' payload = JStr (substitute_zxy u 14 9806 6550))"
  using style_tile_url_round_trip[of "''OpenStreetMap.Mapnik''" "JInt 33" "JInt 35" "JInt 14" 14 9806 6550]
  by (simp add: TILE_PROVIDERS_def)


section \<open>Facts about rounding\<close>

lemma round_ties_even_int: "round_ties_even (of_int k) = k"
  by (simp add: round_ties_even_def)

lemma round_ties_even_le: "r \<le> of_int k \<Longrightarrow> round_ties_even r \<le> k"
proof -
  assume le: "r \<le> of_int k"
  then have "\<lfloor>r\<rfloor> \<le> \<lfloor>of_int k :: real\<rfloor>" by (rule floor_mono)
  then have f: "\<lfloor>r\<rfloor> \<le> k" by simp
  show ?thesis
  proof (cases "of_int \<lfloor>r\<rfloor> = r")
    case True
    then have "r - of_int \<lfloor>r\<rfloor> = 0" by linarith
    then show ?thesis using f by (simp add: round_ties_even_def Let_def)
  next
    case False
    then have "of_int \<lfloor>r\<rfloor> < r" using of_int_floor_le[of r] by linarith
    with le have "of_int \<lfloor>r\<rfloor> < (of_int k :: real)" by linarith
    then have "\<lfloor>r\<rfloor> < k" by simp
    then show ?thesis by (auto simp: round_ties_even_def Let_def)
  qed
qed

lemma round_ties_even_ge: "of_int k \<le> r \<Longrightarrow> k \<le> round_ties_even r"
proof -
  assume "of_int k \<le> r"
  then have "k \<le> \<lfloor>r\<rfloor>" by (simp add: le_floor_iff)
  then show ?thesis by (auto simp: round_ties_even_def Let_def)
qed

lemma quantum_pos: "0 < quantum x"
  by (simp add: quantum_def)

lemma rnd_le_multiple:
  assumes "x \<le> of_int k * quantum x"
  shows "rnd x \<le> of_int k * quantum x"
proof (cases "x = 0")
  case True
  with assms show ?thesis by (simp add: rnd_def)
next
  case False
  from assms have "x / quantum x \<le> of_int k"
    using quantum_pos[of x] by (simp add: pos_divide_le_eq)
  then have "round_ties_even (x / quantum x) \<le> k" by (rule round_ties_even_le)
  then have "(of_int (round_ties_even (x / quantum x)) :: real) \<le> of_int k" by simp
  then show ?thesis using False quantum_pos[of x] by (simp add: rnd_def)
qed

lemma rnd_ge_multiple:
  assumes "of_int k * quantum x \<le> x"
  shows "of_int k * quantum x \<le> rnd x"
proof (cases "x = 0")
  case True
  with assms show ?thesis by (simp add: rnd_def)
next
  case False
  from assms have "of_int k \<le> x / quantum x"
    using quantum_pos[of x] by (simp add: pos_le_divide_eq)
  then have "k \<le> round_ties_even (x / quantum x)" by (rule round_ties_even_ge)
  then have "(of_int k :: real) \<le> of_int (round_ties_even (x / quantum x))" by simp
  then show ?thesis using False quantum_pos[of x] by (simp add: rnd_def)
qed

lemma quantum_exp_le:
  assumes "x \<noteq> 0" and "\<bar>x\<bar> < 2 powi k"
  shows "quantum_exp x \<le> max (k - 53) (- 1074)"
proof -
  have p: "(2::real) powi k = 2 powr of_int k"
    by (simp add: powr_int power_int_def inverse_eq_divide power_divide)
  have "log 2 \<bar>x\<bar> < log 2 (2 powi k)" using assms by simp
  also have "\<dots> = of_int k" unfolding p by simp
  finally have "\<lfloor>log 2 \<bar>x\<bar>\<rfloor> < k" by (simp add: floor_less_iff)
  then show ?thesis by (simp add: quantum_exp_def)
qed

lemma grid_multiple:
  assumes "x \<noteq> 0" and "\<bar>x\<bar> < 2 powi k" and "max (k - 53) (- 1074) \<le> j"
  shows "\<exists>m. (of_int i :: real) * 2 powi j = of_int m * quantum x"
proof -
  have le: "quantum_exp x \<le> j" using quantum_exp_le[OF assms(1,2)] assms(3) by linarith
  define d where "d = nat (j - quantum_exp x)"
  have "(2::real) powi j = 2 powi (quantum_exp x + int d)" using le by (simp add: d_def)
  also have "\<dots> = 2 powi quantum_exp x * 2 ^ d" by (simp add: power_int_add)
  finally have "(of_int i :: real) * 2 powi j = of_int (i * 2 ^ d) * quantum x"
    by (simp add: quantum_def)
  then show ?thesis by blast
qed

lemma rnd_le:
  assumes "x \<le> of_int i * 2 powi j" and "\<bar>x\<bar> < 2 powi k" and "max (k - 53) (- 1074) \<le> j"
  shows "rnd x \<le> of_int i * 2 powi j"
proof (cases "x = 0")
  case True
  with assms(1) show ?thesis by (simp add: rnd_def)
next
  case False
  from grid_multiple[OF False assms(2,3), of i] obtain m
    where m: "(of_int i :: real) * 2 powi j = of_int m * quantum x" by blast
  with assms(1) rnd_le_multiple[of x m] show ?thesis by simp
qed

lemma rnd_ge:
  assumes "of_int i * 2 powi j \<le> x" and "\<bar>x\<bar> < 2 powi k" and "max (k - 53) (- 1074) \<le> j"
  shows "of_int i * 2 powi j \<le> rnd x"
proof (cases "x = 0")
  case True
  with assms(1) show ?thesis by (simp add: rnd_def)
next
  case False
  from grid_multiple[OF False assms(2,3), of i] obtain m
    where m: "(of_int i :: real) * 2 powi j = of_int m * quantum x" by blast
  with assms(1) rnd_ge_multiple[of m x] show ?thesis by simp
qed

lemma rnd_exact:
  assumes "x = of_int i * 2 powi j" and "\<bar>x\<bar> < 2 powi k" and "max (k - 53) (- 1074) \<le> j"
  shows "rnd x = x"
  using rnd_le[of x i j k] rnd_ge[of i j x k] assms by simp

lemma rnd_nonneg: "0 \<le> x \<Longrightarrow> 0 \<le> rnd x"
  using rnd_ge_multiple[of 0 x] by simp

lemma rnd_nonpos: "x \<le> 0 \<Longrightarrow> rnd x \<le> 0"
  using rnd_le_multiple[of x 0] by simp

lemma fl_finite: "\<bar>rnd x\<bar> < overflow_threshold \<Longrightarrow> fl x = Fin (rnd x)"
  unfolding fl_def Let_def by (auto simp only: abs_less_iff split: if_splits)

lemma below_threshold: "x \<le> 2 ^ 1023 \<Longrightarrow> x < overflow_threshold"
proof -
  assume "x \<le> 2 ^ 1023"
  moreover have "(2::real) ^ 1023 < 2 ^ 1024" by (rule power_strict_increasing) simp_all
  ultimately show ?thesis unfolding overflow_threshold_def by linarith
qed

lemma fl_zero: "fl 0 = Fin 0"
  using below_threshold[of 0] by (simp add: fl_def rnd_def)


section \<open>Integers as floats\<close>

lemma int_to_float_small:
  assumes "\<bar>i\<bar> < 2 ^ 53"
  shows "int_to_float i = Inr (Fin (of_int i))"
proof -
  have "\<bar>of_int i :: real\<bar> = of_int \<bar>i\<bar>" by simp
  also have "\<dots> < of_int (2 ^ 53)" using assms by (simp only: of_int_less_iff)
  finally have a: "\<bar>of_int i :: real\<bar> < 2 ^ 53" by simp
  have "rnd (of_int i) = of_int i"
    by (rule rnd_exact[where i=i and j=0 and k=53]) (use a in simp_all)
  moreover have "\<bar>of_int i :: real\<bar> < overflow_threshold"
  proof -
    have "(2::real) ^ 53 \<le> 2 ^ 1023" by (rule power_increasing) simp_all
    with a show ?thesis using below_threshold[of "\<bar>of_int i :: real\<bar>"] by linarith
  qed
  ultimately show ?thesis using fl_finite[of "of_int i"] by (simp add: int_to_float_def)
qed

lemma default_zero_division:
  "c \<noteq> 0 \<Longrightarrow> div_by_float (JInt 0) (Fin c) = Inr (Fin 0)"
  using int_to_float_small[of 0] by (simp add: exn_bind_def fl_zero)

section \<open>The geo server: degraded results\<close>

text \<open>
  C4.  Whatever exception the upstream spatial query raises and whatever the arguments,
  \<^verbatim>\<open>searchPois\<close> returns a payload and does not raise: its \<open>results\<close> field is
  the empty list and its \<open>error\<close> field is the string
  \<^verbatim>\<open>"Overpass request failed: "\<close> followed by the text of the exception.
\<close>

theorem searchPois_upstream_failure_degrades:
  "\<exists>payload. searchPois (Inl e) keyword lat lon radiusM maxResults = Inr payload
     \<and> obj_field ''results'' payload = JArr []
     \<and> obj_field ''error'' payload = JStr (''Overpass request failed: '' @ exn_str e)
     \<and> obj_field ''center'' payload = JObj [(''lat'', lat), (''lon'', lon)]"
  by (simp add: searchPois_def dict_get_def)

text \<open>
  C7.  When the upstream routing response is an object whose \<open>routes\<close> is the empty
  list, \<^verbatim>\<open>basicRoute\<close> returns the payload with \<open>error\<close> equal to
  \<^verbatim>\<open>"No route found"\<close> and the start and end coordinates, and does not raise.
\<close>

theorem basicRoute_no_route_found:
  assumes "map_of d ''routes'' = Some (JArr [])"
  shows "basicRoute (Inr (JObj d)) startLat startLon endLat endLon profile
         = Inr (JObj [(''error'', JStr ''No route found''),
                      (''start'', JObj [(''lat'', startLat), (''lon'', startLon)]),
                      (''end'', JObj [(''lat'', endLat), (''lon'', endLon)])])"
  using assms by (simp add: basicRoute_def exn_bind_def dict_get_default_def)

theorem basicRoute_no_route_found_witness:
  "map_of [(''code'', JStr ''Ok''), (''routes'', JArr [])] ''routes'' = Some (JArr []) \<and>
   basicRoute (Inr (JObj [(''code'', JStr ''Ok''), (''routes'', JArr [])]))
       (JFloat (Fin 1)) (JFloat (Fin 2)) (JFloat (Fin 3)) (JFloat (Fin 4)) (JStr ''driving'')
     = Inr (JObj [(''error'', JStr ''No route found''),
                  (''start'', JObj [(''lat'', JFloat (Fin 1)), (''lon'', JFloat (Fin 2))]),
                  (''end'', JObj [(''lat'', JFloat (Fin 3)), (''lon'', JFloat (Fin 4))])])"
  using basicRoute_no_route_found[of "[(''code'', JStr ''Ok''), (''routes'', JArr [])]"
      "JFloat (Fin 1)" "JFloat (Fin 2)" "JFloat (Fin 3)" "JFloat (Fin 4)" "JStr ''driving''"]
  by simp

section \<open>The geo server: geocoding\<close>

text \<open>
  C3 fails on the code.  \<^verbatim>\<open>geocodeAddress\<close> catches \<^verbatim>\<open>KeyError\<close> and
  \<^verbatim>\<open>ValueError\<close> only; an entry whose \<open>lat\<close> is JSON \<open>null\<close> makes
  \<^verbatim>\<open>float\<close> raise \<^verbatim>\<open>TypeError\<close>, which leaves the loop and reaches the caller,
  for every text-to-float conversion.
\<close>

theorem geocode_null_latitude_raises:
  "geocodeAddress parse (Inr (JArr [JObj [(''lat'', JNull), (''lon'', JStr ''35.5'')]])) query
   = Inl (Raise TypeError ''float() argument must be a string or a real number'')"
  by (simp add: geocodeAddress_def exn_bind_def item_lat_lon_def)


text \<open>An entry with a missing key or with a text that is no number is dropped.\<close>

lemma geocode_absent_key_dropped:
  assumes "map_of d ''lat'' = None \<or> (map_of d ''lat'' = Some (JStr s) \<and> parse s \<noteq> None \<and> map_of d ''lon'' = None)"
  shows "geocode_loop parse (JObj d # items) = geocode_loop parse items"
  using assms by (auto simp: item_lat_lon_def exn_bind_def)

lemma geocode_unparsable_text_dropped:
  assumes "map_of d ''lat'' = Some (JStr s)" and "parse s = None"
  shows "geocode_loop parse (JObj d # items) = geocode_loop parse items"
  using assms by (simp add: item_lat_lon_def exn_bind_def)

section \<open>The geo server: routes\<close>

text \<open>
  C10.  Let the first route of the upstream response be an object.  If a field
  \<open>distance\<close> or \<open>duration\<close> that is present divides without error, and the legs
  of the route are well formed, then \<^verbatim>\<open>basicRoute\<close> returns the route payload, and
  in it \<open>distanceKm\<close> is \<open>0.0\<close> when the key \<open>distance\<close> is absent and
  \<open>durationMin\<close> is \<open>0.0\<close> when the key \<open>duration\<close> is absent: the missing field
  is taken as \<open>0\<close> and does not make the call fail.
\<close>

theorem missing_distance_or_duration_defaults_to_zero:
  assumes routes: "map_of d ''routes'' = Some (JArr (JObj r # others))"
      and dist: "\<forall>v. map_of r ''distance'' = Some v \<longrightarrow> (\<exists>q. div_by_float v (Fin 1000) = Inr q)"
      and dur: "\<forall>v. map_of r ''duration'' = Some v \<longrightarrow> (\<exists>q. div_by_float v (Fin 60) = Inr q)"
      and legs: "exn_bind (py_iter (dict_get_default r ''legs'' (JArr []))) legs_loop = Inr steps"
  shows "\<exists>km mn.
           basicRoute (Inr (JObj d)) startLat startLon endLat endLon profile
             = Inr (JObj [
                 (''start'', JObj [(''lat'', startLat), (''lon'', startLon)]),
                 (''end'', JObj [(''lat'', endLat), (''lon'', endLon)]),
                 (''profile'', profile),
                 (''distanceKm'', JFloat km),
                 (''durationMin'', JFloat mn),
                 (''steps'', JArr steps)])
         \<and> (map_of r ''distance'' = None \<longrightarrow> km = Fin 0)
         \<and> (map_of r ''duration'' = None \<longrightarrow> mn = Fin 0)"
proof -
  obtain km where km: "div_by_float (dict_get_default r ''distance'' (JInt 0)) (Fin 1000) = Inr km"
    and km0: "map_of r ''distance'' = None \<longrightarrow> km = Fin 0"
  proof (cases "map_of r ''distance''")
    case None
    then have "div_by_float (dict_get_default r ''distance'' (JInt 0)) (Fin 1000) = Inr (Fin 0)"
      using default_zero_division[of 1000] by (simp add: dict_get_default_def)
    then show ?thesis using that by blast
  next
    case (Some v)
    with dist obtain q where "div_by_float v (Fin 1000) = Inr q" by blast
    with Some show ?thesis using that by (simp add: dict_get_default_def)
  qed
  obtain mn where mn: "div_by_float (dict_get_default r ''duration'' (JInt 0)) (Fin 60) = Inr mn"
    and mn0: "map_of r ''duration'' = None \<longrightarrow> mn = Fin 0"
  proof (cases "map_of r ''duration''")
    case None
    then have "div_by_float (dict_get_default r ''duration'' (JInt 0)) (Fin 60) = Inr (Fin 0)"
      using default_zero_division[of 60] by (simp add: dict_get_default_def)
    then show ?thesis using that by blast
  next
    case (Some v)
    with dur obtain q where "div_by_float v (Fin 60) = Inr q" by blast
    with Some show ?thesis using that by (simp add: dict_get_default_def)
  qed
  from legs obtain ls where ls: "py_iter (dict_get_default r ''legs'' (JArr [])) = Inr ls"
    and st: "legs_loop ls = Inr steps"
    by (auto simp: exn_bind_def split: sum.splits)
  have res: "basicRoute (Inr (JObj d)) startLat startLon endLat endLon profile
             = Inr (JObj [
                 (''start'', JObj [(''lat'', startLat), (''lon'', startLon)]),
                 (''end'', JObj [(''lat'', endLat), (''lon'', endLon)]),
                 (''profile'', profile),
                 (''distanceKm'', JFloat km),
                 (''durationMin'', JFloat mn),
                 (''steps'', JArr steps)])"
    using routes km mn ls st
    by (simp add: basicRoute_def exn_bind_def dict_get_default_def[of d])
  show ?thesis
  proof (intro exI conjI)
    show "basicRoute (Inr (JObj d)) startLat startLon endLat endLon profile
             = Inr (JObj [
                 (''start'', JObj [(''lat'', startLat), (''lon'', startLon)]),
                 (''end'', JObj [(''lat'', endLat), (''lon'', endLon)]),
                 (''profile'', profile),
                 (''distanceKm'', JFloat km),
                 (''durationMin'', JFloat mn),
                 (''steps'', JArr steps)])" by (rule res)
    show "map_of r ''distance'' = None \<longrightarrow> km = Fin 0" by (rule km0)
    show "map_of r ''duration'' = None \<longrightarrow> mn = Fin 0" by (rule mn0)
  qed
qed

theorem missing_distance_or_duration_witness:
  "map_of [(''routes'', JArr [JObj [(''duration'', JInt 120 :: pyfloat json)]])] ''routes''
     = Some (JArr (JObj [(''duration'', JInt 120)] # []))
   \<and> map_of [(''duration'', JInt 120 :: pyfloat json)] ''distance'' = None
   \<and> (\<exists>q. div_by_float (JInt 120) (Fin 60) = Inr q)
   \<and> exn_bind (py_iter (dict_get_default [(''duration'', JInt 120)] ''legs'' (JArr []))) legs_loop
        = Inr []
   \<and> (\<exists>mn. basicRoute (Inr (JObj [(''routes'', JArr [JObj [(''duration'', JInt 120)]])]))
           (JFloat (Fin 1)) (JFloat (Fin 2)) (JFloat (Fin 3)) (JFloat (Fin 4)) (JStr ''driving'')
         = Inr (JObj [
             (''start'', JObj [(''lat'', JFloat (Fin 1)), (''lon'', JFloat (Fin 2))]),
             (''end'', JObj [(''lat'', JFloat (Fin 3)), (''lon'', JFloat (Fin 4))]),
             (''profile'', JStr ''driving''),
             (''distanceKm'', JFloat (Fin 0)),
             (''durationMin'', JFloat mn),
             (''steps'', JArr [])]))"
proof -
  have h1: "map_of [(''routes'', JArr [JObj [(''duration'', JInt 120 :: pyfloat json)]])] ''routes''
     = Some (JArr (JObj [(''duration'', JInt 120)] # []))" by simp
  have i120: "int_to_float 120 = Inr (Fin 120)" using int_to_float_small[of 120] by simp
  have h2: "\<forall>v. map_of [(''duration'', JInt 120 :: pyfloat json)] ''distance'' = Some v
          \<longrightarrow> (\<exists>q. div_by_float v (Fin 1000) = Inr q)" by simp
  have h3: "\<forall>v. map_of [(''duration'', JInt 120 :: pyfloat json)] ''duration'' = Some v
          \<longrightarrow> (\<exists>q. div_by_float v (Fin 60) = Inr q)" by (simp add: i120 exn_bind_def)
  have h4: "exn_bind (py_iter (dict_get_default [(''duration'', JInt 120)] ''legs'' (JArr []))) legs_loop
        = Inr []" by (simp add: dict_get_default_def exn_bind_def)
  from missing_distance_or_duration_defaults_to_zero[OF h1 h2 h3 h4,
      of "JFloat (Fin 1)" "JFloat (Fin 2)" "JFloat (Fin 3)" "JFloat (Fin 4)" "JStr ''driving''"]
  have "\<exists>mn. basicRoute (Inr (JObj [(''routes'', JArr [JObj [(''duration'', JInt 120)]])]))
           (JFloat (Fin 1)) (JFloat (Fin 2)) (JFloat (Fin 3)) (JFloat (Fin 4)) (JStr ''driving'')
         = Inr (JObj [
             (''start'', JObj [(''lat'', JFloat (Fin 1)), (''lon'', JFloat (Fin 2))]),
             (''end'', JObj [(''lat'', JFloat (Fin 3)), (''lon'', JFloat (Fin 4))]),
             (''profile'', JStr ''driving''),
             (''distanceKm'', JFloat (Fin 0)),
             (''durationMin'', JFloat mn),
             (''steps'', JArr [])])" by auto
  moreover have "map_of [(''duration'', JInt 120 :: pyfloat json)] ''distance'' = None" by simp
  moreover have "\<exists>q. div_by_float (JInt 120) (Fin 60) = Inr q" by (simp add: i120 exn_bind_def)
  ultimately show ?thesis using h1 h4 by blast
qed


section \<open>The tile index along x\<close>

lemma fl_bracket:
  assumes "lo = of_int i * 2 powi j" and "hi = of_int i' * 2 powi j'"
      and "lo \<le> x" and "x \<le> hi" and "\<bar>x\<bar> < 2 powi k"
      and "max (k - 53) (- 1074) \<le> j" and "max (k - 53) (- 1074) \<le> j'"
      and "- (2 ^ 1023) \<le> lo" and "hi \<le> 2 ^ 1023"
  shows "\<exists>v. fl x = Fin v \<and> lo \<le> v \<and> v \<le> hi"
proof -
  have a: "lo \<le> rnd x" using rnd_ge[of i j x k] assms by simp
  have b: "rnd x \<le> hi" using rnd_le[of x i' j' k] assms by simp
  have "\<bar>rnd x\<bar> \<le> 2 ^ 1023" using a b assms(8,9) by linarith
  then have "\<bar>rnd x\<bar> < overflow_threshold" by (rule below_threshold)
  then have "fl x = Fin (rnd x)" by (rule fl_finite)
  with a b show ?thesis by simp
qed

lemma two_powi_nat: "(2::real) powi int m = 2 ^ m"
  by (simp add: power_int_def)

lemma pow2_float:
  assumes "m \<le> 1023"
  shows "int_to_float (2 ^ m) = Inr (Fin (2 ^ m))"
proof -
  have lt: "(2::real) ^ m \<le> 2 ^ 1023" by (rule power_increasing) (use assms in simp_all)
  have "\<exists>v. fl (2 ^ m) = Fin v \<and> 2 ^ m \<le> v \<and> v \<le> 2 ^ m"
  proof (rule fl_bracket[where i=1 and j="int m" and i'=1 and j'="int m" and k="int m + 1"])
    show "\<bar>2 ^ m :: real\<bar> < 2 powi (int m + 1)"
      by (simp add: power_int_add two_powi_nat)
    show "- (2 ^ 1023) \<le> (2::real) ^ m"
      by (rule order_trans[of _ 0]) simp_all
  qed (use lt in \<open>simp_all add: two_powi_nat\<close>)
  then have "fl (2 ^ m) = Fin (2 ^ m)" by auto
  then show ?thesis by (simp add: int_to_float_def)
qed

lemma pow2_float_overflow:
  assumes "1024 \<le> m"
  shows "int_to_float (2 ^ m) = Inl (Raise OverflowError ''int too large to convert to float'')"
proof -
  have "rnd (2 ^ m) = 2 ^ m"
    by (rule rnd_exact[where i=1 and j="int m" and k="int m + 1"])
       (simp_all add: power_int_add two_powi_nat)
  moreover have "(2::real) ^ 1024 \<le> 2 ^ m" by (rule power_increasing) (use assms in simp_all)
  ultimately have "fl (2 ^ m) = PInf" by (simp only: fl_def Let_def overflow_threshold_def if_True)
  then show ?thesis by (simp add: int_to_float_def)
qed

lemma x_tile_range:
  assumes "m \<le> 1023" and "- 180 \<le> lon" and "lon \<le> 180"
  shows "\<exists>v. x_tile_of (PyInt (2 ^ m)) (Fin lon) = Inr (Fin v) \<and> 0 \<le> v \<and> v \<le> 2 ^ m"
proof -
  have "\<exists>s. fl (lon + 180) = Fin s \<and> 0 \<le> s \<and> s \<le> 360"
    by (rule fl_bracket[where i=0 and j=0 and i'=360 and j'=0 and k=9]) (use assms in simp_all)
  then obtain s where s: "fl (lon + 180) = Fin s" "0 \<le> s" "s \<le> 360" by blast
  have "\<exists>q. fl (s / 360) = Fin q \<and> 0 \<le> q \<and> q \<le> 1"
    by (rule fl_bracket[where i=0 and j=0 and i'=1 and j'=0 and k=1]) (use s in simp_all)
  then obtain q where q: "fl (s / 360) = Fin q" "0 \<le> q" "q \<le> 1" by blast
  have lt: "(2::real) ^ m \<le> 2 ^ 1023" by (rule power_increasing) (use assms(1) in simp_all)
  have prod: "0 \<le> 2 ^ m * q" "2 ^ m * q \<le> 2 ^ m"
    using q by (simp_all add: mult_left_le)
  have "\<exists>p. fl (2 ^ m * q) = Fin p \<and> 0 \<le> p \<and> p \<le> 2 ^ m"
  proof (rule fl_bracket[where i=0 and j="int m" and i'=1 and j'="int m" and k="int m + 1"])
    show "\<bar>2 ^ m * q\<bar> < 2 powi (int m + 1)"
      using prod by (simp add: power_int_add two_powi_nat)
  qed (use prod lt in \<open>simp_all add: two_powi_nat\<close>)
  then obtain p where p: "fl (2 ^ m * q) = Fin p" "0 \<le> p" "p \<le> 2 ^ m" by blast
  have "x_tile_of (PyInt (2 ^ m)) (Fin lon) = Inr (Fin p)"
    using s q p pow2_float[OF assms(1)] by (simp add: x_tile_of_def exn_bind_def)
  with p show ?thesis by blast
qed

lemma trunc_range: "0 \<le> v \<Longrightarrow> v \<le> of_int n \<Longrightarrow> 0 \<le> trunc v \<and> trunc v \<le> n"
  by (simp add: trunc_def floor_le_iff)



lemma fl_exact:
  assumes "x = of_int i * 2 powi j" and "\<bar>x\<bar> < 2 powi k"
      and "max (k - 53) (- 1074) \<le> j" and "\<bar>x\<bar> \<le> 2 ^ 1023"
  shows "fl x = Fin x"
proof -
  have "rnd x = x" using assms(1,2,3) by (rule rnd_exact)
  moreover have "\<bar>x\<bar> < overflow_threshold" using assms(4) by (rule below_threshold)
  ultimately show ?thesis using fl_finite[of x] by simp
qed


lemma small_float: "\<bar>x\<bar> \<le> 2 ^ 10 \<Longrightarrow> \<bar>x :: real\<bar> \<le> 2 ^ 1023"
proof -
  assume "\<bar>x\<bar> \<le> 2 ^ 10"
  moreover have "(2::real) ^ 10 \<le> 2 ^ 1023" by (rule power_increasing) simp_all
  ultimately show ?thesis by linarith
qed


lemma fl_half: "fl (1 / 2) = Fin (1 / 2)"
  by (rule fl_exact[where i=1 and j="- 1" and k=0]) (simp_all add: small_float)


lemma int_to_float_one: "int_to_float 1 = Inr (Fin 1)"
  using int_to_float_small[of 1] by simp



lemma int_to_float_16384: "int_to_float 16384 = Inr (Fin 16384)"
  using int_to_float_small[of 16384] by simp

lemma x_tile_beirut:
  "\<exists>lon v. fl 35.478 = Fin lon \<and> x_tile_of (PyInt 16384) (Fin lon) = Inr (Fin v)
      \<and> 9806 \<le> v \<and> v \<le> 9807 - 1 / 32"
proof -
  have "\<exists>v. fl 35.478 = Fin v \<and> 2270 / 64 \<le> v \<and> v \<le> 2271 / 64"
    by (rule fl_bracket[where i=2270 and j="- 6" and i'=2271 and j'="- 6" and k=6])
       (simp_all add: small_float)
  then obtain lon where lon: "fl 35.478 = Fin lon" "2270 / 64 \<le> lon" "lon \<le> 2271 / 64" by blast
  have "\<exists>s. fl (lon + 180) = Fin s \<and> 13790 / 64 \<le> s \<and> s \<le> 13791 / 64"
    by (rule fl_bracket[where i=13790 and j="- 6" and i'=13791 and j'="- 6" and k=8])
       (use lon in \<open>simp_all add: small_float\<close>)
  then obtain s where s: "fl (lon + 180) = Fin s" "13790 / 64 \<le> s" "s \<le> 13791 / 64" by blast
  have "\<exists>q. fl (s / 360) = Fin q \<and> 9806 / 16384 \<le> q \<and> q \<le> 313823 / 524288"
    by (rule fl_bracket[where i=9806 and j="- 14" and i'=313823 and j'="- 19" and k=0])
       (use s in \<open>simp_all add: small_float\<close>)
  then obtain q where q: "fl (s / 360) = Fin q" "9806 / 16384 \<le> q" "q \<le> 313823 / 524288" by blast
  have "\<exists>p. fl (16384 * q) = Fin p \<and> 9806 \<le> p \<and> p \<le> 313823 / 32"
    by (rule fl_bracket[where i=9806 and j=0 and i'=313823 and j'="- 5" and k=14])
       (use q in \<open>simp_all add: small_float\<close>)
  then obtain p where p: "fl (16384 * q) = Fin p" "9806 \<le> p" "p \<le> 313823 / 32" by blast
  have "x_tile_of (PyInt 16384) (Fin lon) = Inr (Fin p)"
    using s q p int_to_float_16384 by (simp add: x_tile_of_def exn_bind_def)
  with lon p show ?thesis by auto
qed


section \<open>Bounds for sine and cosine\<close>

lemma below_by_bound: "\<bar>f - P\<bar> \<le> E \<Longrightarrow> lo \<le> P - E \<Longrightarrow> lo \<le> (f::real)"
  by linarith

lemma above_by_bound: "\<bar>f - P\<bar> \<le> E \<Longrightarrow> P + E \<le> hi \<Longrightarrow> (f::real) \<le> hi"
  by linarith

lemma cos_poly10: "(\<Sum>m<10. cos_coeff m * x ^ m) = 1 - x^2 / 2 + x^4 / 24 - x^6 / 720 + x^8 / 40320"
  by (simp add: eval_nat_numeral cos_coeff_Suc sin_coeff_Suc)

lemma sin_poly10:
  "(\<Sum>m<10. sin_coeff m * x ^ m) = x - x^3 / 6 + x^5 / 120 - x^7 / 5040 + x^9 / 362880"
  by (simp add: eval_nat_numeral cos_coeff_Suc sin_coeff_Suc)

lemma cos_taylor_bound: "\<bar>cos x - (\<Sum>m<n. cos_coeff m * x ^ m)\<bar> \<le> \<bar>x\<bar> ^ n / fact n"
proof -
  from Maclaurin_cos_expansion[of x n] obtain t where
    t: "cos x = (\<Sum>m<n. cos_coeff m * x ^ m) + (cos (t + 1 / 2 * real n * pi) / fact n) * x ^ n"
    by blast
  have "\<bar>cos x - (\<Sum>m<n. cos_coeff m * x ^ m)\<bar> = \<bar>cos (t + 1 / 2 * real n * pi)\<bar> * (\<bar>x\<bar> ^ n / fact n)"
    unfolding t by (simp add: abs_mult power_abs)
  also have "\<dots> \<le> 1 * (\<bar>x\<bar> ^ n / fact n)"
    by (rule mult_right_mono) simp_all
  finally show ?thesis by simp
qed

lemma cos_taylor10:
  "\<bar>cos (x::real) - (1 - x^2 / 2 + x^4 / 24 - x^6 / 720 + x^8 / 40320)\<bar> \<le> \<bar>x\<bar> ^ 10 / 3628800"
  using cos_taylor_bound[of x 10] by (simp add: cos_poly10 fact_numeral)

lemma sin_taylor10:
  "\<bar>sin (x::real) - (x - x^3 / 6 + x^5 / 120 - x^7 / 5040 + x^9 / 362880)\<bar> \<le> \<bar>x\<bar> ^ 10 / 3628800"
  using Maclaurin_sin_bound[of x 10] by (simp add: sin_poly10 fact_numeral inverse_eq_divide)


lemma quantum_exp_exact:
  assumes "2 powi e \<le> \<bar>x\<bar>" and "\<bar>x\<bar> < 2 powi (e + 1)" and "- 1022 \<le> e"
  shows "quantum_exp x = e - 52"
proof -
  have p: "(2::real) powi k = 2 powr of_int k" for k
    by (simp add: powr_int power_int_def inverse_eq_divide power_divide)
  have pos: "0 < \<bar>x\<bar>" using assms(1) by (smt (verit) zero_less_power_int)
  have "of_int e \<le> log 2 \<bar>x\<bar>"
    using assms(1) pos unfolding p by (simp add: le_log_iff)
  moreover have "log 2 \<bar>x\<bar> < of_int (e + 1)"
    using assms(2) pos unfolding p by (simp add: log_less_iff)
  ultimately have "\<lfloor>log 2 \<bar>x\<bar>\<rfloor> = e" by (simp add: floor_eq_iff)
  then show ?thesis using assms(3) by (simp add: quantum_exp_def)
qed

lemma rnd_eval:
  assumes "2 powi e \<le> \<bar>x\<bar>" and "\<bar>x\<bar> < 2 powi (e + 1)" and "- 1022 \<le> e"
  shows "rnd x = of_int (round_ties_even (x / 2 powi (e - 52))) * 2 powi (e - 52)"
proof -
  have "x \<noteq> 0" using assms(1) by (smt (verit) zero_less_power_int)
  then show ?thesis
    using quantum_exp_exact[OF assms] by (simp add: rnd_def quantum_def)
qed

lemma round_ties_even_near:
  assumes "\<bar>y - of_int k\<bar> < 1 / 2"
  shows "round_ties_even y = k"
proof -
  from assms have a: "y - of_int k < 1 / 2" "- (y - of_int k) < 1 / 2"
    unfolding abs_less_iff by simp_all
  show ?thesis
  proof (cases "of_int k \<le> y")
    case True
    have hi: "y < of_int k + 1" using a(1) by linarith
    have f: "\<lfloor>y\<rfloor> = k" using True hi by (rule floor_unique)
    show ?thesis using a(1) by (simp add: round_ties_even_def Let_def f)
  next
    case False
    have lo: "of_int (k - 1) \<le> y" using a(2) by simp
    have hi: "y < of_int (k - 1) + 1" using False by simp
    have f: "\<lfloor>y\<rfloor> = k - 1" using lo hi by (rule floor_unique)
    have "1 / 2 < y - of_int (k - 1)" using a(2) by simp
    then show ?thesis by (simp add: round_ties_even_def Let_def f)
  qed
qed

lemma rnd_near:
  assumes "2 powi e \<le> \<bar>x\<bar>" and "\<bar>x\<bar> < 2 powi (e + 1)" and "- 1022 \<le> e"
      and "\<bar>x / 2 powi (e - 52) - of_int k\<bar> < 1 / 2"
  shows "rnd x = of_int k * 2 powi (e - 52)"
  using rnd_eval[OF assms(1,2,3)] round_ties_even_near[OF assms(4)] by simp

lemma rad90: "rnd (90 * deg_to_rad) = 7074237752028440 / 2 ^ 52"
proof -
  have "rnd (90 * deg_to_rad)
        = of_int (round_ties_even (90 * deg_to_rad / 2 powi (0 - 52))) * 2 powi (0 - 52)"
    by (rule rnd_eval) (simp_all add: deg_to_rad_def)
  also have "round_ties_even (90 * deg_to_rad / 2 powi (0 - 52)) = 7074237752028440"
    by (simp add: deg_to_rad_def round_ties_even_def power_int_minus)
  finally show ?thesis by (simp add: power_int_minus)
qed

text \<open>
  The float \<^verbatim>\<open>radians(90.0)\<close> lies just below \<open>\<pi>/2\<close>.  Its cosine is bracketed
  from the series at a 64th of the angle and six doublings,
  \<open>cos (2 x) = 2 (cos x)\<^sup>2 - 1\<close>.
\<close>

lemma cos_poly16:
  "(\<Sum>m<16. cos_coeff m * x ^ m) = 1 - x^2 / 2 + x^4 / 24 - x^6 / 720 + x^8 / 40320 - x^10 / 3628800 + x^12 / 479001600 - x^14 / 87178291200"
  by (simp add: eval_nat_numeral cos_coeff_Suc sin_coeff_Suc)

lemma cos_taylor16:
  "\<bar>cos (x::real) - (1 - x^2 / 2 + x^4 / 24 - x^6 / 720 + x^8 / 40320 - x^10 / 3628800 + x^12 / 479001600 - x^14 / 87178291200)\<bar>
   \<le> \<bar>x\<bar> ^ 16 / 20922789888000"
  using cos_taylor_bound[of x 16] by (simp add: cos_poly16 fact_numeral)

lemma cos_double_lower:
  fixes x :: real
  assumes "lo \<le> cos x" and "0 \<le> lo" and "lo' \<le> 2 * lo\<^sup>2 - 1"
  shows "lo' \<le> cos (2 * x)"
proof -
  have "lo\<^sup>2 \<le> (cos x)\<^sup>2" by (rule power_mono) (use assms in simp_all)
  then show ?thesis using assms(3) by (simp add: cos_double_cos)
qed

lemma cos_double_upper:
  fixes x :: real
  assumes "cos x \<le> hi" and "0 \<le> cos x" and "2 * hi\<^sup>2 - 1 \<le> hi'"
  shows "cos (2 * x) \<le> hi'"
proof -
  have "(cos x)\<^sup>2 \<le> hi\<^sup>2" by (rule power_mono) (use assms in simp_all)
  then show ?thesis using assms(3) by (simp add: cos_double_cos)
qed


lemma cos_rad90_tight:
  "2604535696600077893401 / 2 ^ 125 \<le> cos (7074237752028440 / 2 ^ 52 :: real)"
  "cos (7074237752028440 / 2 ^ 52 :: real) \<le> 2604535696600077896864 / 2 ^ 125"
proof -
  have c0: "42522485029251312658050046057076033819 / 2 ^ 125 \<le> cos (7074237752028440 / 2 ^ 58 :: real)"
    by (rule below_by_bound[OF cos_taylor16]) (simp add: power_divide)
  have d0: "cos (7074237752028440 / 2 ^ 58 :: real) \<le> 42522485029251312658050046057076033820 / 2 ^ 125"
    by (rule above_by_bound[OF cos_taylor16]) (simp add: power_divide)
  have e1: "2 * (7074237752028440 / 2 ^ 58 :: real) = 7074237752028440 / 2 ^ 57" by simp
  have p1: "0 \<le> cos (7074237752028440 / 2 ^ 58 :: real)" by (rule order_trans[OF _ c0]) simp
  have "42484060238421824501825625071406282306 / 2 ^ 125 \<le> cos (2 * (7074237752028440 / 2 ^ 58 :: real))"
    by (rule cos_double_lower[OF c0]) (simp_all add: power_divide)
  then have c1: "42484060238421824501825625071406282306 / 2 ^ 125 \<le> cos (7074237752028440 / 2 ^ 57 :: real)" unfolding e1 .
  have "cos (2 * (7074237752028440 / 2 ^ 58 :: real)) \<le> 42484060238421824501825625071406282311 / 2 ^ 125"
    by (rule cos_double_upper[OF d0 p1]) (simp_all add: power_divide)
  then have d1: "cos (7074237752028440 / 2 ^ 57 :: real) \<le> 42484060238421824501825625071406282311 / 2 ^ 125" unfolding e1 .
  have e2: "2 * (7074237752028440 / 2 ^ 57 :: real) = 7074237752028440 / 2 ^ 56" by simp
  have p2: "0 \<le> cos (7074237752028440 / 2 ^ 57 :: real)" by (rule order_trans[OF _ c1]) simp
  have "42330476789447794505072747677168937816 / 2 ^ 125 \<le> cos (2 * (7074237752028440 / 2 ^ 57 :: real))"
    by (rule cos_double_lower[OF c1]) (simp_all add: power_divide)
  then have c2: "42330476789447794505072747677168937816 / 2 ^ 125 \<le> cos (7074237752028440 / 2 ^ 56 :: real)" unfolding e2 .
  have "cos (2 * (7074237752028440 / 2 ^ 57 :: real)) \<le> 42330476789447794505072747677168937837 / 2 ^ 125"
    by (rule cos_double_upper[OF d1 p2]) (simp_all add: power_divide)
  then have d2: "cos (7074237752028440 / 2 ^ 56 :: real) \<le> 42330476789447794505072747677168937837 / 2 ^ 125" unfolding e2 .
  have e3: "2 * (7074237752028440 / 2 ^ 56 :: real) = 7074237752028440 / 2 ^ 55" by simp
  have p3: "0 \<le> cos (7074237752028440 / 2 ^ 56 :: real)" by (rule order_trans[OF _ c2]) simp
  have "41717992082103447612758211993238659120 / 2 ^ 125 \<le> cos (2 * (7074237752028440 / 2 ^ 56 :: real))"
    by (rule cos_double_lower[OF c2]) (simp_all add: power_divide)
  then have c3: "41717992082103447612758211993238659120 / 2 ^ 125 \<le> cos (7074237752028440 / 2 ^ 55 :: real)" unfolding e3 .
  have "cos (2 * (7074237752028440 / 2 ^ 56 :: real)) \<le> 41717992082103447612758211993238659204 / 2 ^ 125"
    by (rule cos_double_upper[OF d2 p3]) (simp_all add: power_divide)
  then have d3: "cos (7074237752028440 / 2 ^ 55 :: real) \<le> 41717992082103447612758211993238659204 / 2 ^ 125" unfolding e3 .
  have e4: "2 * (7074237752028440 / 2 ^ 55 :: real) = 7074237752028440 / 2 ^ 54" by simp
  have p4: "0 \<le> cos (7074237752028440 / 2 ^ 55 :: real)" by (rule order_trans[OF _ c3]) simp
  have "39297489259093847271174220773326106745 / 2 ^ 125 \<le> cos (2 * (7074237752028440 / 2 ^ 55 :: real))"
    by (rule cos_double_lower[OF c3]) (simp_all add: power_divide)
  then have c4: "39297489259093847271174220773326106745 / 2 ^ 125 \<le> cos (7074237752028440 / 2 ^ 54 :: real)" unfolding e4 .
  have "cos (2 * (7074237752028440 / 2 ^ 55 :: real)) \<le> 39297489259093847271174220773326107076 / 2 ^ 125"
    by (rule cos_double_upper[OF d3 p4]) (simp_all add: power_divide)
  then have d4: "cos (7074237752028440 / 2 ^ 54 :: real) \<le> 39297489259093847271174220773326107076 / 2 ^ 125" unfolding e4 .
  have e5: "2 * (7074237752028440 / 2 ^ 54 :: real) = 7074237752028440 / 2 ^ 53" by simp
  have p5: "0 \<le> cos (7074237752028440 / 2 ^ 54 :: real)" by (rule order_trans[OF _ c4]) simp
  have "30076996146000564863971648013874823003 / 2 ^ 125 \<le> cos (2 * (7074237752028440 / 2 ^ 54 :: real))"
    by (rule cos_double_lower[OF c4]) (simp_all add: power_divide)
  then have c5: "30076996146000564863971648013874823003 / 2 ^ 125 \<le> cos (7074237752028440 / 2 ^ 53 :: real)" unfolding e5 .
  have "cos (2 * (7074237752028440 / 2 ^ 54 :: real)) \<le> 30076996146000564863971648013874824227 / 2 ^ 125"
    by (rule cos_double_upper[OF d4 p5]) (simp_all add: power_divide)
  then have d5: "cos (7074237752028440 / 2 ^ 53 :: real) \<le> 30076996146000564863971648013874824227 / 2 ^ 125" unfolding e5 .
  have e6: "2 * (7074237752028440 / 2 ^ 53 :: real) = 7074237752028440 / 2 ^ 52" by simp
  have p6: "0 \<le> cos (7074237752028440 / 2 ^ 53 :: real)" by (rule order_trans[OF _ c5]) simp
  have "2604535696600077893401 / 2 ^ 125 \<le> cos (2 * (7074237752028440 / 2 ^ 53 :: real))"
    by (rule cos_double_lower[OF c5]) (simp_all add: power_divide)
  then have c6: "2604535696600077893401 / 2 ^ 125 \<le> cos (7074237752028440 / 2 ^ 52 :: real)" unfolding e6 .
  have "cos (2 * (7074237752028440 / 2 ^ 53 :: real)) \<le> 2604535696600077896864 / 2 ^ 125"
    by (rule cos_double_upper[OF d5 p6]) (simp_all add: power_divide)
  then have d6: "cos (7074237752028440 / 2 ^ 52 :: real) \<le> 2604535696600077896864 / 2 ^ 125" unfolding e6 .
  show "2604535696600077893401 / 2 ^ 125 \<le> cos (7074237752028440 / 2 ^ 52 :: real)" by (rule c6)
  show "cos (7074237752028440 / 2 ^ 52 :: real) \<le> 2604535696600077896864 / 2 ^ 125" by (rule d6)
qed

lemma cos_rad90:
  "2 powi (- 54) \<le> cos (7074237752028440 / 2 ^ 52 :: real)"
  "cos (7074237752028440 / 2 ^ 52 :: real) \<le> 2 powi (- 53)"
proof -
  show "2 powi (- 54) \<le> cos (7074237752028440 / 2 ^ 52 :: real)"
    by (rule order_trans[OF _ cos_rad90_tight(1)]) (simp add: power_int_minus)
  show "cos (7074237752028440 / 2 ^ 52 :: real) \<le> 2 powi (- 53)"
    by (rule order_trans[OF cos_rad90_tight(2)]) (simp add: power_int_minus)
qed


lemma exp_taylor8:
  fixes x :: real
  assumes "0 \<le> x" and "x \<le> 1"
  shows "1 + x + x^2 / 2 + x^3 / 6 + x^4 / 24 + x^5 / 120 + x^6 / 720 + x^7 / 5040 \<le> exp x"
    and "exp x \<le> 1 + x + x^2 / 2 + x^3 / 6 + x^4 / 24 + x^5 / 120 + x^6 / 720 + x^7 / 5040
                 + 3 * x^8 / 40320"
proof -
  from Maclaurin_exp_le[of x 8] obtain t where
    t: "\<bar>t\<bar> \<le> \<bar>x\<bar>" "exp x = (\<Sum>m<8. (x ^ m) / fact m) + (exp t / fact 8) * x ^ 8"
    by blast
  have s: "(\<Sum>m<8. (x ^ m) / fact m)
           = 1 + x + x^2 / 2 + x^3 / 6 + x^4 / 24 + x^5 / 120 + x^6 / 720 + x^7 / 5040"
    by (simp add: eval_nat_numeral)
  have e0: "0 \<le> exp t" by simp
  have "t \<le> 1" using t(1) assms by linarith
  then have "exp t \<le> exp 1" by simp
  then have e3: "exp t \<le> 3" using exp_le by linarith
  have x8: "0 \<le> x ^ 8" using assms by simp
  have r0: "0 \<le> (exp t / fact 8) * x ^ 8" using e0 x8 by simp
  have "(exp t / fact 8) * x ^ 8 \<le> (3 / fact 8) * x ^ 8"
    by (rule mult_right_mono) (use e3 x8 in \<open>simp_all add: divide_right_mono\<close>)
  then have r3: "(exp t / fact 8) * x ^ 8 \<le> 3 * x ^ 8 / 40320" by (simp add: fact_numeral)
  show "1 + x + x^2 / 2 + x^3 / 6 + x^4 / 24 + x^5 / 120 + x^6 / 720 + x^7 / 5040 \<le> exp x"
    using t(2) s r0 by linarith
  show "exp x \<le> 1 + x + x^2 / 2 + x^3 / 6 + x^4 / 24 + x^5 / 120 + x^6 / 720 + x^7 / 5040
                 + 3 * x^8 / 40320"
    using t(2) s r3 by linarith
qed

lemma e_bounds: "27 / 10 \<le> exp (1::real)" "exp (1::real) \<le> 272 / 100"
  using exp_taylor8[of 1] by simp_all

lemma exp_36: "exp (36::real) \<le> 2 ^ 53"
proof -
  have "exp (36::real) = exp 1 ^ 36" using exp_of_nat_mult[of 36 "1::real"] by simp
  also have "\<dots> \<le> (272 / 100) ^ 36" by (rule power_mono) (use e_bounds in simp_all)
  also have "\<dots> \<le> 2 ^ 53" by (simp add: power_divide)
  finally show ?thesis .
qed

lemma exp_39: "2 ^ 55 \<le> exp (39::real)"
proof -
  have "(2::real) ^ 55 \<le> (27 / 10) ^ 39" by (simp add: power_divide)
  also have "\<dots> \<le> exp 1 ^ 39" by (rule power_mono) (use e_bounds in simp_all)
  also have "\<dots> = exp 39" using exp_of_nat_mult[of 39 "1::real"] by simp
  finally show ?thesis .
qed


section \<open>The range of the tile indices\<close>






section \<open>At the poles\<close>

subsection \<open>At the north pole\<close>

lemma fl_between:
  assumes "of_int i * 2 powi j \<le> x" and "x \<le> of_int i' * 2 powi j'"
      and "\<bar>x\<bar> < 2 powi k" and "max (k - 53) (- 1074) \<le> j" and "max (k - 53) (- 1074) \<le> j'"
      and "- 1074 \<le> k" and "k \<le> 1023"
  shows "\<exists>v. fl x = Fin v \<and> of_int i * 2 powi j \<le> v \<and> v \<le> of_int i' * 2 powi j'"
proof -
  have a: "of_int i * 2 powi j \<le> rnd x" using rnd_ge[of i j x k] assms by simp
  have b: "rnd x \<le> of_int i' * 2 powi j'" using rnd_le[of x i' j' k] assms by simp
  have "\<bar>rnd x\<bar> \<le> 2 powi k"
  proof -
    have "rnd x \<le> of_int 1 * 2 powi k"
      by (rule rnd_le[where k=k]) (use assms(3,6) in simp_all)
    moreover have "of_int (- 1) * 2 powi k \<le> rnd x"
      by (rule rnd_ge[where k=k]) (use assms(3,6) in simp_all)
    ultimately show ?thesis by simp
  qed
  also have "(2::real) powi k \<le> 2 powi 1023"
    by (rule power_int_increasing) (use assms(7) in simp_all)
  finally have "\<bar>rnd x\<bar> \<le> 2 ^ 1023" by simp
  then have "\<bar>rnd x\<bar> < overflow_threshold" by (rule below_threshold)
  then have "fl x = Fin (rnd x)" by (rule fl_finite)
  with a b show ?thesis by simp
qed


lemma north_pole_y:
  fixes L :: libm and m :: nat
  defines "r \<equiv> 7074237752028440 / 2 ^ 52"
  assumes c: "2 powi (- 54) \<le> lib_cos L r" "lib_cos L r \<le> 2 powi (- 53)"
      and t: "0 \<le> lib_tan L r" "lib_tan L r \<le> 2 ^ 54"
      and lg: "\<And>s. 2 ^ 53 \<le> s \<Longrightarrow> s \<le> 2 ^ 55 \<Longrightarrow> 36 \<le> lib_log L s \<and> lib_log L s \<le> 39"
      and m: "m \<le> 1000"
  shows "\<exists>v. y_tile_of L (PyInt (2 ^ m)) (Fin r) = Inr (Fin v)
           \<and> - 23 * 2 ^ m / 4 \<le> v \<and> v \<le> - 41 * 2 ^ m / 8"
proof -
  define cs where "cs = lib_cos L r"
  define tn where "tn = lib_tan L r"
  have cpos: "0 < cs" using c(1) unfolding cs_def
    by (smt (verit) zero_less_power_int)
  have inv: "2 ^ 53 \<le> 1 / cs" "1 / cs \<le> 2 ^ 54"
    using c cpos unfolding cs_def[symmetric]
    by (simp_all add: power_int_minus field_simps)
  have "\<exists>v. fl (1 / cs) = Fin v \<and> of_int 1 * 2 powi 53 \<le> v \<and> v \<le> of_int 1 * 2 powi 54"
    by (rule fl_between[where k=55]) (use inv in simp_all)
  then obtain sec where sec: "fl (1 / cs) = Fin sec" "2 ^ 53 \<le> sec" "sec \<le> 2 ^ 54" by auto
  have "\<exists>v. fl (tn + sec) = Fin v \<and> of_int 1 * 2 powi 53 \<le> v \<and> v \<le> of_int 1 * 2 powi 55"
    by (rule fl_between[where k=56]) (use sec t in \<open>simp_all add: tn_def\<close>)
  then obtain s where s: "fl (tn + sec) = Fin s" "2 ^ 53 \<le> s" "s \<le> 2 ^ 55" by auto
  have spos: "0 < s" using s(2) by (smt (verit) zero_less_power)
  define l where "l = lib_log L s"
  have l: "36 \<le> l" "l \<le> 39" using lg[OF s(2,3)] by (simp_all add: l_def)
  have "\<exists>v. fl (l / math_pi) = Fin v \<and> of_int 45 * 2 powi (- 2) \<le> v \<and> v \<le> of_int 25 * 2 powi (- 1)"
    by (rule fl_between[where k=4]) (use l in \<open>simp_all add: math_pi_def field_simps\<close>)
  then obtain q where q: "fl (l / math_pi) = Fin q" "45 / 4 \<le> q" "q \<le> 25 / 2" by auto
  have "\<exists>v. fl (1 + - q) = Fin v \<and> of_int (- 23) * 2 powi (- 1) \<le> v \<and> v \<le> of_int (- 41) * 2 powi (- 2)"
    by (rule fl_between[where k=4]) (use q in simp_all)
  then obtain w where w: "fl (1 + - q) = Fin w" "- 23 / 2 \<le> w" "w \<le> - 41 / 4" by auto
  define N :: real where "N = 2 ^ m"
  have Npos: "0 < N" by (simp add: N_def)
  have pw: "(2::real) powi (int m - 1) = N / 2" "(2::real) powi (int m - 2) = N / 4"
    "(2::real) powi (int m - 3) = N / 8" "(2::real) powi (int m + 4) = N * 16"
    "(2::real) powi (int m + 3) = N * 8"
    by (simp_all add: N_def power_int_diff power_int_add two_powi_nat)
  have nw: "- 23 * N / 2 \<le> N * w" "N * w \<le> - 41 * N / 4"
    using mult_left_mono[OF w(2), of N] mult_left_mono[OF w(3), of N] Npos by simp_all
  have "\<exists>v. fl (N * w) = Fin v \<and> of_int (- 23) * 2 powi (int m - 1) \<le> v
          \<and> v \<le> of_int (- 41) * 2 powi (int m - 2)"
    by (rule fl_between[where k="int m + 4"]) (use nw Npos m in \<open>simp_all add: pw\<close>)
  then obtain p where p: "fl (N * w) = Fin p" "- 23 * N / 2 \<le> p" "p \<le> - 41 * N / 4"
    by (auto simp: pw)
  have "\<exists>v. fl (p / 2) = Fin v \<and> of_int (- 23) * 2 powi (int m - 2) \<le> v
          \<and> v \<le> of_int (- 41) * 2 powi (int m - 3)"
    by (rule fl_between[where k="int m + 3"]) (use p Npos m in \<open>simp_all add: pw\<close>)
  then obtain y where y: "fl (p / 2) = Fin y" "- 23 * N / 4 \<le> y" "y \<le> - 41 * N / 8"
    by (auto simp: pw)
  have n: "int_to_float (2 ^ m) = Inr (Fin N)" unfolding N_def by (rule pow2_float) (use m in simp)
  have "y_tile_of L (PyInt (2 ^ m)) (Fin r) = Inr (Fin y)"
    using cpos sec s spos q w p y n
    by (simp add: y_tile_of_def exn_bind_def cs_def[symmetric] tn_def[symmetric] l_def[symmetric]
        fsub_def math_pi_def)
  with y show ?thesis unfolding N_def by simp
qed


lemma rad90_bounds: "0 \<le> (7074237752028440 / 2 ^ 52 :: real)" "(7074237752028440 / 2 ^ 52 :: real) \<le> pi"
proof -
  show "0 \<le> (7074237752028440 / 2 ^ 52 :: real)" by simp
  have "(7074237752028440 / 2 ^ 52 :: real) \<le> 2" by simp
  with pi_ge_two show "(7074237752028440 / 2 ^ 52 :: real) \<le> pi" by linarith
qed

lemma tan_rad90: "0 \<le> tan (7074237752028440 / 2 ^ 52 :: real)"
  "tan (7074237752028440 / 2 ^ 52 :: real) \<le> 2 ^ 54"
proof -
  define r :: real where "r = 7074237752028440 / 2 ^ 52"
  have c: "2 powi (- 54) \<le> cos r" unfolding r_def by (rule cos_rad90)
  then have c1: "1 / 2 ^ 54 \<le> cos r" by (simp add: power_int_minus inverse_eq_divide)
  then have cpos: "0 < cos r" by (smt (verit) divide_pos_pos zero_less_power zero_less_one)
  have s: "0 \<le> sin r" "sin r \<le> 1"
    using sin_ge_zero[of r] rad90_bounds unfolding r_def by simp_all
  have "sin r / cos r \<le> 1 / cos r" using s(2) cpos by (simp add: divide_right_mono)
  also have "1 / cos r \<le> 2 ^ 54" using c1 cpos by (simp add: field_simps)
  finally have "tan r \<le> 2 ^ 54" by (simp add: tan_def)
  moreover have "0 \<le> tan r" using s(1) cpos by (simp add: tan_def)
  ultimately show "0 \<le> tan (7074237752028440 / 2 ^ 52 :: real)"
    "tan (7074237752028440 / 2 ^ 52 :: real) \<le> 2 ^ 54" unfolding r_def by simp_all
qed

lemma ln_large:
  assumes "2 ^ 53 \<le> s" and "s \<le> 2 ^ 55"
  shows "36 \<le> ln (s::real)" "ln s \<le> 39"
proof -
  have spos: "0 < s" using assms(1) by (smt (verit) zero_less_power)
  have "exp 36 \<le> s" using exp_36 assms(1) by linarith
  then show "36 \<le> ln s" using spos by (simp add: ln_ge_iff)
  have "s \<le> exp 39" using exp_39 assms(2) by linarith
  then have "ln s \<le> ln (exp 39)" using spos by (simp del: ln_exp)
  then show "ln s \<le> 39" by simp
qed

lemma libm_exact_at_pole:
  "2 powi (- 54) \<le> lib_cos libm_exact (7074237752028440 / 2 ^ 52)"
  "lib_cos libm_exact (7074237752028440 / 2 ^ 52) \<le> 2 powi (- 53)"
  "0 \<le> lib_tan libm_exact (7074237752028440 / 2 ^ 52)"
  "lib_tan libm_exact (7074237752028440 / 2 ^ 52) \<le> 2 ^ 54"
proof -
  define r :: real where "r = 7074237752028440 / 2 ^ 52"
  have c: "2 powi (- 54) \<le> cos r" "cos r \<le> 2 powi (- 53)" unfolding r_def by (rule cos_rad90)+
  have ca: "\<bar>cos r\<bar> < 2 powi (- 52)"
  proof -
    have "0 \<le> cos r" using c(1) by (smt (verit) zero_less_power_int)
    moreover have "(2::real) powi (- 53) < 2 powi (- 52)" by (simp add: power_int_minus)
    ultimately show ?thesis using c(2) by linarith
  qed
  have "of_int 1 * 2 powi (- 54) \<le> rnd (cos r)"
    by (rule rnd_ge[where k="- 52"]) (use c ca in simp_all)
  then show "2 powi (- 54) \<le> lib_cos libm_exact (7074237752028440 / 2 ^ 52)"
    by (simp add: libm_exact_def r_def)
  have "rnd (cos r) \<le> of_int 1 * 2 powi (- 53)"
    by (rule rnd_le[where k="- 52"]) (use c ca in simp_all)
  then show "lib_cos libm_exact (7074237752028440 / 2 ^ 52) \<le> 2 powi (- 53)"
    by (simp add: libm_exact_def r_def)
  have t: "0 \<le> tan r" "tan r \<le> 2 ^ 54" unfolding r_def by (rule tan_rad90)+
  have "0 \<le> rnd (tan r)" using t(1) by (rule rnd_nonneg)
  then show "0 \<le> lib_tan libm_exact (7074237752028440 / 2 ^ 52)"
    by (simp add: libm_exact_def r_def)
  have "rnd (tan r) \<le> of_int 1 * 2 powi 54"
    by (rule rnd_le[where k=55]) (use t in simp_all)
  then show "lib_tan libm_exact (7074237752028440 / 2 ^ 52) \<le> 2 ^ 54"
    by (simp add: libm_exact_def r_def)
qed

lemma libm_exact_log_large:
  assumes "2 ^ 53 \<le> s" and "s \<le> 2 ^ 55"
  shows "36 \<le> lib_log libm_exact s \<and> lib_log libm_exact s \<le> 39"
proof -
  have l: "36 \<le> ln s" "ln s \<le> 39" using ln_large[OF assms] by simp_all
  have "of_int 36 * 2 powi 0 \<le> rnd (ln s)"
    by (rule rnd_ge[where k=6]) (use l in simp_all)
  moreover have "rnd (ln s) \<le> of_int 39 * 2 powi 0"
    by (rule rnd_le[where k=6]) (use l in simp_all)
  ultimately show ?thesis by (simp add: libm_exact_def)
qed

lemma radians_90: "math_radians (Fin 90) = Fin (7074237752028440 / 2 ^ 52)"
proof -
  have "\<bar>rnd (90 * deg_to_rad)\<bar> \<le> 2 ^ 10" unfolding rad90 by simp
  then have "\<bar>rnd (90 * deg_to_rad)\<bar> < overflow_threshold"
    using small_float below_threshold by blast
  then have "fl (90 * deg_to_rad) = Fin (rnd (90 * deg_to_rad))" by (rule fl_finite)
  then show ?thesis by (simp add: math_radians_def rad90)
qed

lemma north_pole_tile:
  assumes "m \<le> 1000" and "- 180 \<le> lon" and "lon \<le> 180"
  shows "\<exists>x y. lat_lon_to_tile_indices libm_exact (Fin 90) (Fin lon) (int m) = Inr (x, y)
           \<and> 0 \<le> x \<and> x \<le> 2 ^ m \<and> - 6 * 2 ^ m \<le> y \<and> y \<le> - 5 * 2 ^ m"
proof -
  have m': "m \<le> 1023" using assms(1) by simp
  from x_tile_range[OF m' assms(2,3)] obtain u
    where u: "x_tile_of (PyInt (2 ^ m)) (Fin lon) = Inr (Fin u)" "0 \<le> u" "u \<le> 2 ^ m" by blast
  from north_pole_y[OF libm_exact_at_pole libm_exact_log_large assms(1)] obtain v
    where v: "y_tile_of libm_exact (PyInt (2 ^ m)) (Fin (7074237752028440 / 2 ^ 52)) = Inr (Fin v)"
      "- 23 * 2 ^ m / 4 \<le> v" "v \<le> - 41 * 2 ^ m / 8" by blast
  have "u \<le> of_int (2 ^ m)" using u(3) by simp
  with u(2) have tx: "0 \<le> trunc u \<and> trunc u \<le> 2 ^ m" by (rule trunc_range)
  have N: "(0::real) < 2 ^ m" by simp
  have vneg: "v < 0" using v(3) N by linarith
  have "v \<le> - 5 * 2 ^ m" using v(3) N by linarith
  then have "v \<le> of_int (- 5 * 2 ^ m)" by simp
  then have ty1: "\<lceil>v\<rceil> \<le> - 5 * 2 ^ m" by (simp only: ceiling_le_iff)
  have "- 6 * 2 ^ m \<le> v" using v(2) N by linarith
  then have "of_int (- 6 * 2 ^ m) \<le> v" by simp
  then have "of_int (- 6 * 2 ^ m) \<le> (of_int \<lceil>v\<rceil> :: real)" using le_of_int_ceiling[of v] by linarith
  then have ty2: "- 6 * 2 ^ m \<le> \<lceil>v\<rceil>" by (simp only: of_int_le_iff)
  have "lat_lon_to_tile_indices libm_exact (Fin 90) (Fin lon) (int m) = Inr (trunc u, \<lceil>v\<rceil>)"
    using u(1) v(1) vneg
    by (simp add: lat_lon_to_tile_indices_def Let_def radians_90 pow2_def exn_bind_def trunc_def)
  with tx ty1 ty2 show ?thesis by simp
qed

lemma north_pole_zoom0:
  "lat_lon_to_tile_indices libm_exact (Fin 90) (Fin 0) 0 = Inr (0, - 5)"
proof -
  from north_pole_y[OF libm_exact_at_pole libm_exact_log_large, of 0] obtain v
    where v: "y_tile_of libm_exact (PyInt 1) (Fin (7074237752028440 / 2 ^ 52)) = Inr (Fin v)"
      "- 23 / 4 \<le> v" "v \<le> - 41 / 8" by auto
  have "\<lceil>v\<rceil> = - 5" using v(2,3) by (simp add: ceiling_eq_iff)
  moreover have "v < 0" using v(3) by linarith
  moreover have "x_tile_of (PyInt 1) (Fin 0) = Inr (Fin (1 / 2))"
  proof -
    have "fl 180 = Fin 180"
      by (rule fl_exact[where i=180 and j=0 and k=8]) (simp_all add: small_float)
    then show ?thesis
      by (simp add: x_tile_of_def exn_bind_def fl_half int_to_float_one)
  qed
  ultimately show ?thesis
    using v(1)
    by (simp add: lat_lon_to_tile_indices_def Let_def radians_90 pow2_def exn_bind_def trunc_def)
qed


subsection \<open>At the south pole\<close>

text \<open>
  At \<open>-90\<close> the tangent is the negative of the one at \<open>+90\<close>.  Rounded to
  nearest, it cancels the float \<^verbatim>\<open>1.0 / cos\<close> exactly, and the logarithm is
  asked for zero.
\<close>

lemma rnd_cos_rad90:
  "rnd (cos (7074237752028440 / 2 ^ 52)) = 4967757600021511 / 2 ^ 106"
proof -
  define c :: real where "c = cos (7074237752028440 / 2 ^ 52)"
  have b: "(2604535696600077893401 / 2 ^ 125) \<le> c" "c \<le> (2604535696600077896864 / 2 ^ 125)"
    unfolding c_def by (rule cos_rad90_tight)+
  have "rnd c = of_int 4967757600021511 * 2 powi (- 54 - 52)"
    by (rule rnd_near) (use b in \<open>simp_all add: power_int_minus abs_if field_simps\<close>)
  then show ?thesis unfolding c_def by (simp add: power_int_minus field_simps)
qed

lemma tan_rad90_tight:
  "16331239353195369 + 1 / 2 \<le> tan (7074237752028440 / 2 ^ 52 :: real)"
  "tan (7074237752028440 / 2 ^ 52 :: real) \<le> 16331239353195370"
proof -
  define r :: real where "r = 7074237752028440 / 2 ^ 52"
  have b: "(2604535696600077893401 / 2 ^ 125) \<le> cos r" "cos r \<le> (2604535696600077896864 / 2 ^ 125)"
    unfolding r_def by (rule cos_rad90_tight)+
  have cpos: "0 < cos r" by (rule less_le_trans[OF _ b(1)]) simp
  have s: "0 \<le> sin r" "sin r \<le> 1"
    using sin_ge_zero[of r] rad90_bounds unfolding r_def by simp_all
  have "(sin r)\<^sup>2 \<le> sin r" using s by (simp add: power2_eq_square mult_left_le)
  moreover have "(sin r)\<^sup>2 = 1 - (cos r)\<^sup>2" using sin_cos_squared_add[of r] by linarith
  moreover have "(cos r)\<^sup>2 \<le> (2604535696600077896864 / 2 ^ 125)\<^sup>2"
    by (rule power_mono) (use b cpos in simp_all)
  ultimately have sl: "1 - (2604535696600077896864 / 2 ^ 125)\<^sup>2 \<le> sin r" by linarith
  have "(1 - (2604535696600077896864 / 2 ^ 125)\<^sup>2) / (2604535696600077896864 / 2 ^ 125) \<le> sin r / cos r"
    by (rule frac_le) (use sl b cpos s in simp_all)
  moreover have "(16331239353195369 + 1 / 2 :: real) \<le> (1 - (2604535696600077896864 / 2 ^ 125)\<^sup>2) / (2604535696600077896864 / 2 ^ 125)"
    by (simp add: power_divide)
  ultimately show "16331239353195369 + 1 / 2 \<le> tan (7074237752028440 / 2 ^ 52 :: real)"
    unfolding tan_def r_def by linarith
  have "sin r / cos r \<le> 1 / (2604535696600077893401 / 2 ^ 125)"
    by (rule frac_le) (use b s in simp_all)
  moreover have "1 / (2604535696600077893401 / 2 ^ 125) \<le> (16331239353195370 :: real)" by simp
  ultimately show "tan (7074237752028440 / 2 ^ 52 :: real) \<le> 16331239353195370"
    unfolding tan_def r_def by linarith
qed

lemma rnd_tan_minus_rad90:
  "rnd (tan (- (7074237752028440 / 2 ^ 52))) = - 16331239353195370"
proof -
  define t :: real where "t = tan (7074237752028440 / 2 ^ 52)"
  have b: "16331239353195369 + 1 / 2 \<le> t" "t \<le> 16331239353195370"
    unfolding t_def by (rule tan_rad90_tight)+
  have "rnd (- t) = of_int (- 8165619676597685) * 2 powi (53 - 52)"
    by (rule rnd_near) (use b in \<open>simp_all add: abs_if\<close>)
  then show ?thesis unfolding t_def by simp
qed

lemma rnd_sec_rad90:
  "rnd (1 / (4967757600021511 / 2 ^ 106)) = 16331239353195370"
proof -
  have "rnd (1 / (4967757600021511 / 2 ^ 106)) = of_int 8165619676597685 * 2 powi (53 - 52)"
    by (rule rnd_near) (simp_all add: abs_if)
  then show ?thesis by simp
qed

lemma radians_minus_90: "math_radians (Fin (- 90)) = Fin (- (7074237752028440 / 2 ^ 52))"
proof -
  have r: "rnd (- 90 * deg_to_rad) = of_int (- 7074237752028440) * 2 powi (0 - 52)"
    by (rule rnd_near) (simp_all add: deg_to_rad_def abs_if power_int_minus)
  then have "\<bar>rnd (- 90 * deg_to_rad)\<bar> \<le> 2 ^ 10" by (simp add: power_int_minus)
  then have "\<bar>rnd (- 90 * deg_to_rad)\<bar> < overflow_threshold"
    using small_float below_threshold by blast
  then have "fl (- 90 * deg_to_rad) = Fin (rnd (- 90 * deg_to_rad))" by (rule fl_finite)
  then show ?thesis using r by (simp add: math_radians_def power_int_minus)
qed

lemma south_pole_y:
  "y_tile_of libm_exact n (Fin (- (7074237752028440 / 2 ^ 52)))
   = Inl (Raise ValueError ''math domain error'')"
proof -
  have "\<bar>16331239353195370 :: real\<bar> \<le> 2 ^ 1023"
  proof -
    have "\<bar>16331239353195370 :: real\<bar> \<le> 2 ^ 54" by simp
    also have "(2::real) ^ 54 \<le> 2 ^ 1023" by (rule power_increasing) simp_all
    finally show ?thesis .
  qed
  then have "\<bar>rnd (1 / (4967757600021511 / 2 ^ 106))\<bar> < overflow_threshold"
    unfolding rnd_sec_rad90 by (rule below_threshold)
  then have sec: "fl (1 / (4967757600021511 / 2 ^ 106)) = Fin 16331239353195370"
    using fl_finite[of "1 / (4967757600021511 / 2 ^ 106)"] by (simp only: rnd_sec_rad90)
  have t: "lib_tan libm_exact (- (7074237752028440 / 2 ^ 52)) = - 16331239353195370"
    using rnd_tan_minus_rad90 by (simp add: libm_exact_def)
  have c: "lib_cos libm_exact (- (7074237752028440 / 2 ^ 52)) = 4967757600021511 / 2 ^ 106"
    using rnd_cos_rad90 by (simp add: libm_exact_def)
  show ?thesis
    unfolding y_tile_of_def math_tan.simps math_cos.simps t c
    using sec by (simp add: exn_bind_def fl_zero)
qed

lemma south_pole_tile:
  assumes "m \<le> 1023" and "- 180 \<le> lon" and "lon \<le> 180"
  shows "lat_lon_to_tile_indices libm_exact (Fin (- 90)) (Fin lon) (int m)
         = Inl (Raise ValueError ''math domain error'')"
proof -
  from x_tile_range[OF assms] obtain u
    where u: "x_tile_of (PyInt (2 ^ m)) (Fin lon) = Inr (Fin u)" by blast
  show ?thesis
    using u south_pole_y[of "PyInt (2 ^ m)"]
    by (simp add: lat_lon_to_tile_indices_def Let_def radians_minus_90 pow2_def exn_bind_def)
qed


section \<open>The tile of a point in Beirut\<close>

lemma beirut_y:
  fixes L :: libm
  assumes tanb: "\<And>\<rho>. 4962527 / 2 ^ 23 \<le> \<rho> \<Longrightarrow> \<rho> \<le> 9925055 / 2 ^ 24 \<Longrightarrow>
                   5635847 / 2 ^ 23 \<le> lib_tan L \<rho> \<and> lib_tan L \<rho> \<le> 11271699 / 2 ^ 24"
      and cosb: "\<And>\<rho>. 4962527 / 2 ^ 23 \<le> \<rho> \<Longrightarrow> \<rho> \<le> 9925055 / 2 ^ 24 \<Longrightarrow>
                   13926111 / 2 ^ 24 \<le> lib_cos L \<rho> \<and> lib_cos L \<rho> \<le> 13926113 / 2 ^ 24"
      and logb: "\<And>\<sigma>. 31483721 / 2 ^ 24 \<le> \<sigma> \<Longrightarrow> \<sigma> \<le> 15741865 / 2 ^ 23 \<Longrightarrow>
                   41251 / 2 ^ 16 \<le> lib_log L \<sigma> \<and> lib_log L \<sigma> \<le> 10313 / 2 ^ 14"
  shows "\<exists>lat r v. fl 33.895 = Fin lat \<and> math_radians (Fin lat) = Fin r
           \<and> y_tile_of L (PyInt 16384) (Fin r) = Inr (Fin v)
           \<and> 52405 / 8 \<le> v \<and> v \<le> 26203 / 4"
proof -
  have "\<exists>v. fl 33.895 = Fin v \<and> of_int 35541483 * 2 powi (- 20) \<le> v
          \<and> v \<le> of_int 35541484 * 2 powi (- 20)"
    by (rule fl_between[where k=6]) (simp_all add: power_int_minus)
  then obtain lat where lat: "fl 33.895 = Fin lat" "35541483 / 2 ^ 20 \<le> lat" "lat \<le> 35541484 / 2 ^ 20"
    by (auto simp: power_int_minus field_simps)
  have "\<exists>v. fl (lat * deg_to_rad) = Fin v \<and> of_int 4962527 * 2 powi (- 23) \<le> v
          \<and> v \<le> of_int 9925055 * 2 powi (- 24)"
    by (rule fl_between[where k=0]) (use lat in \<open>simp_all add: power_int_minus deg_to_rad_def\<close>)
  then obtain r where r: "fl (lat * deg_to_rad) = Fin r" "4962527 / 2 ^ 23 \<le> r" "r \<le> 9925055 / 2 ^ 24"
    by (auto simp: power_int_minus field_simps)
  define tn where "tn = lib_tan L r"
  define cs where "cs = lib_cos L r"
  have tn: "5635847 / 2 ^ 23 \<le> tn" "tn \<le> 11271699 / 2 ^ 24"
    using tanb[OF r(2,3)] by (simp_all add: tn_def)
  have cs: "13926111 / 2 ^ 24 \<le> cs" "cs \<le> 13926113 / 2 ^ 24"
    using cosb[OF r(2,3)] by (simp_all add: cs_def)
  have cpos: "0 < cs" using cs(1) by simp
  have inv: "20212027 / 2 ^ 24 \<le> 1 / cs" "1 / cs \<le> 20212031 / 2 ^ 24"
    using cs cpos by (simp_all add: field_simps)
  have "\<exists>v. fl (1 / cs) = Fin v \<and> of_int 20212027 * 2 powi (- 24) \<le> v
          \<and> v \<le> of_int 20212031 * 2 powi (- 24)"
    by (rule fl_between[where k=1]) (use inv in \<open>simp_all add: power_int_minus\<close>)
  then obtain sec where sec: "fl (1 / cs) = Fin sec" "20212027 / 2 ^ 24 \<le> sec" "sec \<le> 20212031 / 2 ^ 24"
    by (auto simp: power_int_minus field_simps)
  have "\<exists>v. fl (tn + sec) = Fin v \<and> of_int 31483721 * 2 powi (- 24) \<le> v
          \<and> v \<le> of_int 15741865 * 2 powi (- 23)"
    by (rule fl_between[where k=1]) (use tn sec in \<open>simp_all add: power_int_minus\<close>)
  then obtain s where s: "fl (tn + sec) = Fin s" "31483721 / 2 ^ 24 \<le> s" "s \<le> 15741865 / 2 ^ 23"
    by (auto simp: power_int_minus field_simps)
  have spos: "0 < s" using s(2) by simp
  define l where "l = lib_log L s"
  have l: "41251 / 2 ^ 16 \<le> l" "l \<le> 10313 / 2 ^ 14" using logb[OF s(2,3)] by (simp_all add: l_def)
  have "\<exists>v. fl (l / math_pi) = Fin v \<and> of_int 6565 * 2 powi (- 15) \<le> v
          \<and> v \<le> of_int 13131 * 2 powi (- 16)"
    by (rule fl_between[where k="- 2"]) (use l in \<open>simp_all add: power_int_minus math_pi_def field_simps\<close>)
  then obtain q where q: "fl (l / math_pi) = Fin q" "6565 / 2 ^ 15 \<le> q" "q \<le> 13131 / 2 ^ 16"
    by (auto simp: power_int_minus field_simps)
  have "\<exists>v. fl (1 + - q) = Fin v \<and> of_int 52405 * 2 powi (- 16) \<le> v
          \<and> v \<le> of_int 26203 * 2 powi (- 15)"
    by (rule fl_between[where k=0]) (use q in \<open>simp_all add: power_int_minus\<close>)
  then obtain w where w: "fl (1 + - q) = Fin w" "52405 / 2 ^ 16 \<le> w" "w \<le> 26203 / 2 ^ 15"
    by (auto simp: power_int_minus field_simps)
  have "\<exists>v. fl (16384 * w) = Fin v \<and> of_int 52405 * 2 powi (- 2) \<le> v
          \<and> v \<le> of_int 26203 * 2 powi (- 1)"
    by (rule fl_between[where k=14]) (use w in \<open>simp_all add: power_int_minus\<close>)
  then obtain p where p: "fl (16384 * w) = Fin p" "52405 / 4 \<le> p" "p \<le> 26203 / 2"
    by (auto simp: power_int_minus field_simps)
  have "\<exists>v. fl (p / 2) = Fin v \<and> of_int 52405 * 2 powi (- 3) \<le> v
          \<and> v \<le> of_int 26203 * 2 powi (- 2)"
    by (rule fl_between[where k=13]) (use p in \<open>simp_all add: power_int_minus\<close>)
  then obtain y where y: "fl (p / 2) = Fin y" "52405 / 8 \<le> y" "y \<le> 26203 / 4"
    by (auto simp: power_int_minus field_simps)
  have "y_tile_of L (PyInt 16384) (Fin r) = Inr (Fin y)"
    using cpos sec s spos q w p y int_to_float_16384
    by (simp add: y_tile_of_def exn_bind_def cs_def[symmetric] tn_def[symmetric] l_def[symmetric]
        fsub_def math_pi_def)
  moreover have "math_radians (Fin lat) = Fin r" using r(1) by (simp add: math_radians_def)
  ultimately show ?thesis using lat(1) y(2,3) by blast
qed


lemma sin_cos_beirut:
  fixes \<rho> :: real
  assumes "4962527 / 2 ^ 23 \<le> \<rho>" and "\<rho> \<le> 9925055 / 2 ^ 24"
  shows "4678097 / 2 ^ 23 \<le> sin \<rho>" "sin \<rho> \<le> 2339049 / 2 ^ 22"
    "13926111 / 2 ^ 24 \<le> cos \<rho>" "cos \<rho> \<le> 13926113 / 2 ^ 24"
proof -
  define a :: real where "a = 4962527 / 2 ^ 23"
  define b :: real where "b = 9925055 / 2 ^ 24"
  have ab: "0 \<le> a" "a \<le> \<rho>" "\<rho> \<le> b" "b \<le> 1" using assms by (simp_all add: a_def b_def)
  have h: "1 \<le> pi / 2" using pi_ge_two by simp
  have "sin a \<le> sin \<rho>" using ab h by (subst sin_mono_le_eq) simp_all
  moreover have "sin \<rho> \<le> sin b" using ab h by (subst sin_mono_le_eq) simp_all
  moreover have "cos b \<le> cos \<rho>" using ab h by (subst cos_mono_le_eq) simp_all
  moreover have "cos \<rho> \<le> cos a" using ab h by (subst cos_mono_le_eq) simp_all
  moreover have "4678097 / 2 ^ 23 \<le> sin a"
    unfolding a_def by (rule below_by_bound[OF sin_taylor10]) (simp add: power_divide)
  moreover have "sin b \<le> 2339049 / 2 ^ 22"
    unfolding b_def by (rule above_by_bound[OF sin_taylor10]) (simp add: power_divide)
  moreover have "13926111 / 2 ^ 24 \<le> cos b"
    unfolding b_def by (rule below_by_bound[OF cos_taylor10]) (simp add: power_divide)
  moreover have "cos a \<le> 13926113 / 2 ^ 24"
    unfolding a_def by (rule above_by_bound[OF cos_taylor10]) (simp add: power_divide)
  ultimately show "4678097 / 2 ^ 23 \<le> sin \<rho>" "sin \<rho> \<le> 2339049 / 2 ^ 22"
    "13926111 / 2 ^ 24 \<le> cos \<rho>" "cos \<rho> \<le> 13926113 / 2 ^ 24" by linarith+
qed


lemma tan_beirut:
  fixes \<rho> :: real
  assumes "4962527 / 2 ^ 23 \<le> \<rho>" and "\<rho> \<le> 9925055 / 2 ^ 24"
  shows "5635847 / 2 ^ 23 \<le> tan \<rho>" "tan \<rho> \<le> 11271699 / 2 ^ 24"
proof -
  note b = sin_cos_beirut[OF assms]
  have cpos: "0 < cos \<rho>" using b(3) by simp
  have spos: "0 \<le> sin \<rho>" using b(1) by simp
  have "(4678097 / 2 ^ 23) / (13926113 / 2 ^ 24) \<le> sin \<rho> / cos \<rho>"
    by (rule frac_le) (use b cpos in simp_all)
  moreover have "(5635847 / 2 ^ 23 :: real) \<le> (4678097 / 2 ^ 23) / (13926113 / 2 ^ 24)" by simp
  ultimately show "5635847 / 2 ^ 23 \<le> tan \<rho>" unfolding tan_def by linarith
  have "sin \<rho> / cos \<rho> \<le> (2339049 / 2 ^ 22) / (13926111 / 2 ^ 24)"
    by (rule frac_le) (use b spos in simp_all)
  moreover have "(2339049 / 2 ^ 22) / (13926111 / 2 ^ 24) \<le> (11271699 / 2 ^ 24 :: real)" by simp
  ultimately show "tan \<rho> \<le> 11271699 / 2 ^ 24" unfolding tan_def by linarith
qed

lemma ln_beirut:
  fixes \<sigma> :: real
  assumes "31483721 / 2 ^ 24 \<le> \<sigma>" and "\<sigma> \<le> 15741865 / 2 ^ 23"
  shows "41251 / 2 ^ 16 \<le> ln \<sigma>" "ln \<sigma> \<le> 10313 / 2 ^ 14"
proof -
  have spos: "0 < \<sigma>" using assms(1) by simp
  have "exp (41251 / 2 ^ 16) \<le> (31483721 / 2 ^ 24 :: real)"
    by (rule order_trans[OF exp_taylor8(2)]) (simp_all add: power_divide)
  then have "exp (41251 / 2 ^ 16) \<le> \<sigma>" using assms(1) by linarith
  then show "41251 / 2 ^ 16 \<le> ln \<sigma>" using spos by (simp only: ln_ge_iff)
  have "(15741865 / 2 ^ 23 :: real) \<le> exp (10313 / 2 ^ 14)"
    by (rule order_trans[OF _ exp_taylor8(1)]) (simp_all add: power_divide)
  then have "\<sigma> \<le> exp (10313 / 2 ^ 14)" using assms(2) by linarith
  then have "ln \<sigma> \<le> ln (exp (10313 / 2 ^ 14))" using spos by (simp only: ln_le_cancel_iff exp_gt_zero)
  then show "ln \<sigma> \<le> 10313 / 2 ^ 14" by (simp only: ln_exp)
qed

lemma libm_exact_beirut:
  fixes \<rho> \<sigma> :: real
  shows "4962527 / 2 ^ 23 \<le> \<rho> \<Longrightarrow> \<rho> \<le> 9925055 / 2 ^ 24 \<Longrightarrow>
           5635847 / 2 ^ 23 \<le> lib_tan libm_exact \<rho> \<and> lib_tan libm_exact \<rho> \<le> 11271699 / 2 ^ 24"
    and "4962527 / 2 ^ 23 \<le> \<rho> \<Longrightarrow> \<rho> \<le> 9925055 / 2 ^ 24 \<Longrightarrow>
           13926111 / 2 ^ 24 \<le> lib_cos libm_exact \<rho> \<and> lib_cos libm_exact \<rho> \<le> 13926113 / 2 ^ 24"
    and "31483721 / 2 ^ 24 \<le> \<sigma> \<Longrightarrow> \<sigma> \<le> 15741865 / 2 ^ 23 \<Longrightarrow>
           41251 / 2 ^ 16 \<le> lib_log libm_exact \<sigma> \<and> lib_log libm_exact \<sigma> \<le> 10313 / 2 ^ 14"
proof -
  {
    assume r: "4962527 / 2 ^ 23 \<le> \<rho>" "\<rho> \<le> 9925055 / 2 ^ 24"
    note t = tan_beirut[OF r] and c = sin_cos_beirut(3,4)[OF r]
    have "of_int 5635847 * 2 powi (- 23) \<le> rnd (tan \<rho>)"
      by (rule rnd_ge[where k=0]) (use t in \<open>simp_all add: power_int_minus\<close>)
    moreover have "rnd (tan \<rho>) \<le> of_int 11271699 * 2 powi (- 24)"
      by (rule rnd_le[where k=0]) (use t in \<open>simp_all add: power_int_minus\<close>)
    ultimately show "5635847 / 2 ^ 23 \<le> lib_tan libm_exact \<rho> \<and> lib_tan libm_exact \<rho> \<le> 11271699 / 2 ^ 24"
      by (simp add: libm_exact_def power_int_minus field_simps)
    have "of_int 13926111 * 2 powi (- 24) \<le> rnd (cos \<rho>)"
      by (rule rnd_ge[where k=0]) (use c in \<open>simp_all add: power_int_minus\<close>)
    moreover have "rnd (cos \<rho>) \<le> of_int 13926113 * 2 powi (- 24)"
      by (rule rnd_le[where k=0]) (use c in \<open>simp_all add: power_int_minus\<close>)
    ultimately show "13926111 / 2 ^ 24 \<le> lib_cos libm_exact \<rho> \<and> lib_cos libm_exact \<rho> \<le> 13926113 / 2 ^ 24"
      by (simp add: libm_exact_def power_int_minus field_simps)
  }
  {
    assume s: "31483721 / 2 ^ 24 \<le> \<sigma>" "\<sigma> \<le> 15741865 / 2 ^ 23"
    note l = ln_beirut[OF s]
    have "of_int 41251 * 2 powi (- 16) \<le> rnd (ln \<sigma>)"
      by (rule rnd_ge[where k=0]) (use l in \<open>simp_all add: power_int_minus\<close>)
    moreover have "rnd (ln \<sigma>) \<le> of_int 10313 * 2 powi (- 14)"
      by (rule rnd_le[where k=0]) (use l in \<open>simp_all add: power_int_minus\<close>)
    ultimately show "41251 / 2 ^ 16 \<le> lib_log libm_exact \<sigma> \<and> lib_log libm_exact \<sigma> \<le> 10313 / 2 ^ 14"
      by (simp add: libm_exact_def power_int_minus field_simps)
  }
qed

lemma beirut_tile:
  "lat_lon_to_tile_indices libm_exact (fl 33.895) (fl 35.478) 14 = Inr (9806, 6550)"
proof -
  from beirut_y[OF libm_exact_beirut] obtain lat r v
    where y: "fl 33.895 = Fin lat" "math_radians (Fin lat) = Fin r"
      "y_tile_of libm_exact (PyInt 16384) (Fin r) = Inr (Fin v)" "52405 / 8 \<le> v" "v \<le> 26203 / 4"
    by blast
  from x_tile_beirut obtain lon u
    where x: "fl 35.478 = Fin lon" "x_tile_of (PyInt 16384) (Fin lon) = Inr (Fin u)"
      "9806 \<le> u" "u \<le> 9807 - 1 / 32" by blast
  have "\<lfloor>u\<rfloor> = 9806" using x(3,4) by (simp add: floor_eq_iff)
  moreover have "\<lfloor>v\<rfloor> = 6550" using y(4,5) by (simp add: floor_eq_iff)
  moreover have "0 \<le> u" "0 \<le> v" using x(3) y(4) by linarith+
  ultimately show ?thesis
    using x(1,2) y(1,2,3)
    by (simp add: lat_lon_to_tile_indices_def Let_def pow2_def exn_bind_def trunc_def)
qed


section \<open>The poles and the reference point of the specification\<close>

text \<open>
  C2 (as amended).  \<^verbatim>\<open>lat_lon_to_tile_indices\<close> has no check for the poles; what
  happens there is decided by the float arithmetic.  For every zoom from 0 to 1000 and
  every longitude in \<open>[-180, 180]\<close>, with a C library that rounds correctly:
  at latitude exactly \<open>+90\<close> the call raises nothing and returns a pair whose \<open>y\<close>
  is negative, between \<open>-6 * 2 ^ zoom\<close> and \<open>-5 * 2 ^ zoom\<close> (the cosine of the
  float \<^verbatim>\<open>radians(90.0)\<close> is a small positive float, not zero); at latitude
  exactly \<open>-90\<close> the call raises \<^verbatim>\<open>ValueError("math domain error")\<close>, from
  \<^verbatim>\<open>math.log\<close> of the float zero.
\<close>

theorem north_pole_returns_south_pole_raises:
  assumes "0 \<le> zoom" and "zoom \<le> 1000" and "- 180 \<le> lon" and "lon \<le> 180"
  shows "(\<exists>x y. lat_lon_to_tile_indices libm_exact (Fin 90) (Fin lon) zoom = Inr (x, y)
           \<and> - 6 * 2 ^ nat zoom \<le> y \<and> y \<le> - 5 * 2 ^ nat zoom \<and> y < 0)
       \<and> lat_lon_to_tile_indices libm_exact (Fin (- 90)) (Fin lon) zoom
           = Inl (Raise ValueError ''math domain error'')"
proof -
  have m: "nat zoom \<le> 1000" using assms by simp
  from north_pole_tile[OF m assms(3,4)] obtain x y
    where r: "lat_lon_to_tile_indices libm_exact (Fin 90) (Fin lon) (int (nat zoom)) = Inr (x, y)"
      "- 6 * 2 ^ nat zoom \<le> y" "y \<le> - 5 * 2 ^ nat zoom" by blast
  have "(0::int) < 2 ^ nat zoom" by simp
  with r(3) have "y < 0" by linarith
  with r assms(1) have north: "\<exists>x y. lat_lon_to_tile_indices libm_exact (Fin 90) (Fin lon) zoom = Inr (x, y)
           \<and> - 6 * 2 ^ nat zoom \<le> y \<and> y \<le> - 5 * 2 ^ nat zoom \<and> y < 0" by auto
  have m': "nat zoom \<le> 1023" using m by simp
  have "lat_lon_to_tile_indices libm_exact (Fin (- 90)) (Fin lon) (int (nat zoom))
        = Inl (Raise ValueError ''math domain error'')"
    using m' assms(3,4) by (rule south_pole_tile)
  with north assms(1) show ?thesis by simp
qed

theorem north_pole_returns_south_pole_raises_witness:
  "(0::int) \<le> 3 \<and> (3::int) \<le> 1000 \<and> - 180 \<le> (35.5::real) \<and> (35.5::real) \<le> 180
   \<and> (\<exists>x y. lat_lon_to_tile_indices libm_exact (Fin 90) (Fin 35.5) 3 = Inr (x, y)
          \<and> - 48 \<le> y \<and> y \<le> - 40 \<and> y < 0)
   \<and> lat_lon_to_tile_indices libm_exact (Fin (- 90)) (Fin 35.5) 3
       = Inl (Raise ValueError ''math domain error'')"
  using north_pole_returns_south_pole_raises[of 3 "35.5"] by simp

text \<open>
  C2 as stated does not hold at \<open>+90\<close>: at latitude 90, longitude 0 and zoom 0 the call
  returns the pair \<open>(0, -5)\<close> and raises no error.
\<close>

theorem north_pole_no_error_counterexample:
  "lat_lon_to_tile_indices libm_exact (Fin 90) (Fin 0) 0 = Inr (0, - 5)"
  by (rule north_pole_zoom0)

text \<open>
  C6 (as amended).  For latitude 33.895, longitude 35.478 (the floats nearest to these
  decimals) and zoom 14, \<^verbatim>\<open>lat_lon_to_tile_indices\<close> returns exactly
  \<open>(x = 9806, y = 6550)\<close>.
\<close>

theorem beirut_tile_indices:
  "lat_lon_to_tile_indices libm_exact (fl 33.895) (fl 35.478) 14 = Inr (9806, 6550)"
  by (rule beirut_tile)

text \<open>C6 as stated does not hold: the result is not \<open>(9541, 6479)\<close>.\<close>

theorem beirut_tile_counterexample:
  "lat_lon_to_tile_indices libm_exact (fl 33.895) (fl 35.478) 14 \<noteq> Inr (9541, 6479)"
  using beirut_tile by simp


end
